theory Spec2Isabelle
  imports Complex_Main
begin

section \<open>Python values used by the downloader and the crawler\<close>

text \<open>
  A Python \<open>str\<close> is modelled as a \<open>string\<close> whose characters are code points
  below 256. Every \<open>raise\<close> of the source is a value of \<open>exn\<close>, and a function
  that may raise returns \<open>exn + 'a\<close> with \<open>Inl\<close> for the exception.
\<close>

datatype exn =
    RequestException string
  | PermissionError string
  | RuntimeError string
  | ValueError string
  | OtherException string

text \<open>\<open>str(exc)\<close>: the message of an exception.\<close>

fun str_exn :: "exn \<Rightarrow> string" where
  "str_exn (RequestException m) = m"
| "str_exn (PermissionError m) = m"
| "str_exn (RuntimeError m) = m"
| "str_exn (ValueError m) = m"
| "str_exn (OtherException m) = m"

text \<open>
  \<open>str.isspace\<close> on the code points below 256: tab, line feed, vertical tab, form
  feed, carriage return, the separators \<open>0x1c\<close> to \<open>0x1f\<close>, space, \<open>0x85\<close>
  and \<open>0xa0\<close>.
\<close>

definition py_isspace :: "char \<Rightarrow> bool" where
  "py_isspace c =
     (let n = of_char c :: nat
      in (9 \<le> n \<and> n \<le> 13) \<or> (28 \<le> n \<and> n \<le> 32) \<or> n = 133 \<or> n = 160)"

text \<open>\<open>s.strip(chars)\<close> removes the leading and the trailing characters that satisfy \<open>P\<close>.\<close>

definition strip_where :: "(char \<Rightarrow> bool) \<Rightarrow> string \<Rightarrow> string" where
  "strip_where P s = rev (dropWhile P (rev (dropWhile P s)))"

definition py_strip :: "string \<Rightarrow> string" where
  "py_strip s = strip_where py_isspace s"

definition startswith :: "string \<Rightarrow> string \<Rightarrow> bool" where
  "startswith s p = (take (length p) s = p)"

text \<open>\<open>s.replace(a, b)\<close> for single characters \<open>a\<close> and \<open>b\<close>.\<close>

definition replace_char :: "char \<Rightarrow> char \<Rightarrow> string \<Rightarrow> string" where
  "replace_char a b s = map (\<lambda>c. if c = a then b else c) s"

text \<open>\<open>s.split(c)\<close>: the pieces of \<open>s\<close> between occurrences of \<open>c\<close>.\<close>

fun split_on :: "char \<Rightarrow> string \<Rightarrow> string list" where
  "split_on c [] = [[]]"
| "split_on c (x # xs) =
     (if x = c then [] # split_on c xs
      else (case split_on c xs of
              [] \<Rightarrow> [[x]]
            | p # ps \<Rightarrow> (x # p) # ps))"

text \<open>\<open>s.rfind(c)\<close>: the index of the last occurrence of \<open>c\<close>, or \<open>-1\<close>.\<close>

fun rfind_from :: "char \<Rightarrow> string \<Rightarrow> int \<Rightarrow> int \<Rightarrow> int" where
  "rfind_from c [] i found = found"
| "rfind_from c (x # xs) i found = rfind_from c xs (i + 1) (if x = c then i else found)"

definition rfind :: "char \<Rightarrow> string \<Rightarrow> int" where
  "rfind c s = rfind_from c s 0 (- 1)"

text \<open>\<open>os.path.basename(p)\<close> on POSIX: \<open>p[p.rfind('/') + 1:]\<close>.\<close>

definition basename :: "string \<Rightarrow> string" where
  "basename p = drop (nat (rfind (CHR ''/'') p + 1)) p"

section \<open>Paths (\<open>pathlib.Path\<close> on POSIX)\<close>

text \<open>
  A \<open>Path\<close> is its list of components and whether it is absolute. Parsing a string
  drops empty components and \<open>.\<close> components, as \<open>pathlib\<close> does; the special
  root \<open>//\<close> of POSIX is not modelled. \<open>p / s\<close> is \<open>path_join p s\<close>: an
  absolute right operand replaces the left one.
\<close>

datatype pypath = Path (is_abs: bool) (parts: "string list")

definition path_of :: "string \<Rightarrow> pypath" where
  "path_of s =
     Path (startswith s ''/'') (filter (\<lambda>p. p \<noteq> [] \<and> p \<noteq> ''.'') (split_on (CHR ''/'') s))"

definition path_join :: "pypath \<Rightarrow> string \<Rightarrow> pypath" where
  "path_join p s =
     (let q = path_of s in if is_abs q then q else Path (is_abs p) (parts p @ parts q))"

fun join_parts :: "string list \<Rightarrow> string" where
  "join_parts [] = []"
| "join_parts [p] = p"
| "join_parts (p # q # ps) = p @ ''/'' @ join_parts (q # ps)"

definition path_str :: "pypath \<Rightarrow> string" where
  "path_str p =
     (if parts p = [] then (if is_abs p then ''/'' else ''.'')
      else (if is_abs p then ''/'' else []) @ join_parts (parts p))"

definition path_name :: "pypath \<Rightarrow> string" where
  "path_name p = (if parts p = [] then [] else last (parts p))"

text \<open>\<open>Path.suffix\<close>: from the last dot of the name, unless that dot is the first or
  the last character of the name.\<close>

definition name_suffix :: "string \<Rightarrow> string" where
  "name_suffix name =
     (let i = rfind (CHR ''.'') name
      in if 0 < i \<and> i < int (length name) - 1 then drop (nat i) name else [])"

definition path_suffix :: "pypath \<Rightarrow> string" where
  "path_suffix p = name_suffix (path_name p)"

definition with_suffix :: "pypath \<Rightarrow> string \<Rightarrow> exn + pypath" where
  "with_suffix p suffix =
     (if CHR ''/'' \<in> set suffix then Inl (ValueError ''Invalid suffix'')
      else if (suffix \<noteq> [] \<and> \<not> startswith suffix ''.'') \<or> suffix = ''.''
        then Inl (ValueError ''Invalid suffix'')
      else if path_name p = [] then Inl (ValueError ''empty name'')
      else
        (let name = path_name p;
             old_suffix = path_suffix p;
             name' = (if old_suffix = [] then name @ suffix
                      else take (length name - length old_suffix) name @ suffix)
         in Inr (Path (is_abs p) (butlast (parts p) @ [name']))))"

text \<open>
  \<open>os.path.relpath(p, start)\<close> for two paths without \<open>..\<close> components that are
  both absolute or both relative to the working directory: the common prefix is
  dropped and each remaining component of \<open>start\<close> becomes \<open>..\<close>.
\<close>

fun common_prefix_len :: "string list \<Rightarrow> string list \<Rightarrow> nat" where
  "common_prefix_len (x # xs) (y # ys) = (if x = y then Suc (common_prefix_len xs ys) else 0)"
| "common_prefix_len _ _ = 0"

definition relpath :: "pypath \<Rightarrow> pypath \<Rightarrow> string" where
  "relpath p start =
     (let i = common_prefix_len (parts start) (parts p);
          rel_list = replicate (length (parts start) - i) ''..'' @ drop i (parts p)
      in if rel_list = [] then ''.'' else join_parts rel_list)"

section \<open>The environment: libraries, network and files\<close>

text \<open>\<open>urllib.parse.urlparse(url)\<close>: the components the program reads.\<close>

record parsed_url =
  scheme :: string
  netloc :: string
  path :: string

text \<open>
  An element of a parsed document, in document order, with the attributes the program
  reads. \<open>tag.get('rel')\<close> is a list, since \<open>rel\<close> is multi-valued.
\<close>

record tag =
  tag_name :: string
  src :: "string option"
  href :: "string option"
  rel :: "string list option"

text \<open>
  The outcome of \<open>urllib.request.urlopen\<close> on a \<open>robots.txt\<close> URL, as
  \<open>RobotFileParser.read\<close> sees it: a body that was read and decoded, given as the
  decision of its entries for a user agent and a URL; an \<open>HTTPError\<close> with its
  status code; any other exception (\<open>URLError\<close>, a timeout, a decoding error).
\<close>

datatype robots_response =
    RobotsBody "string \<Rightarrow> string \<Rightarrow> bool"
  | RobotsHTTPError nat
  | RobotsRaises string

text \<open>
  The outcome of \<open>self.session.get(url, timeout=...)\<close> followed by
  \<open>r.raise_for_status()\<close>: the response text, a \<open>requests\<close> exception (connection
  error, timeout, bad status), or any other exception, which the loop does not catch.
\<close>

datatype get_outcome =
    GetOk string
  | GetRequestException string
  | GetOtherException string

text \<open>
  The capabilities the program takes from its libraries and from the network.
  \<^item> \<open>urlparse\<close>, \<open>urljoin\<close>: \<open>urllib.parse\<close>; both raise \<open>ValueError\<close> on some inputs.
  \<^item> \<open>robots_txt\<close>: the outcome of fetching a \<open>robots.txt\<close> URL; \<open>time_time\<close>: the
    reading of \<open>time.time()\<close> when a body is parsed.
  \<^item> \<open>page_get url attempt\<close>: the outcome of the GET of a page at an attempt.
  \<^item> \<open>render\<close>: the page content from Playwright, or its exception.
  \<^item> \<open>asset_get\<close>: the chunks of \<open>r.iter_content\<close> of an asset after the retries of
    \<open>_get_stream\<close>, or the exception it ends with.
  \<^item> \<open>parse_html\<close>: the elements of \<open>BeautifulSoup(html, "html.parser")\<close>;
    \<open>soup_str\<close>: \<open>str(soup)\<close>.
\<close>

record env =
  urlparse :: "string \<Rightarrow> exn + parsed_url"
  urljoin :: "string \<Rightarrow> string \<Rightarrow> exn + string"
  robots_txt :: "string \<Rightarrow> robots_response"
  time_time :: rat
  page_get :: "string \<Rightarrow> nat \<Rightarrow> get_outcome"
  render :: "string \<Rightarrow> exn + string"
  asset_get :: "string \<Rightarrow> exn + string list"
  parse_html :: "string \<Rightarrow> tag list"
  soup_str :: "tag list \<Rightarrow> string"

text \<open>
  What a fetch changes: the files (a path string to its content), the user agents of
  the page GETs issued, in order, and the arguments of the calls of \<open>time.sleep\<close>, in
  order. Writing a file is assumed to succeed.
\<close>

record world =
  fs :: "string \<rightharpoonup> string"
  gets :: "string list"
  sleeps :: "rat list"

section \<open>\<open>Downloader\<close>\<close>

record downloader =
  output_dir :: pypath
  user_agent :: string
  respect_robots :: bool
  rate_limit :: rat

definition default_user_agent :: string where
  "default_user_agent = ''Mozilla/5.0 (Windows NT 10.0; Win64; x64) AppleWebKit/537.36 (KHTML, like Gecko) Chrome/91.0.4472.124 Safari/537.36''"

text \<open>Python's \<open>x or d\<close> for an optional string: \<open>None\<close> and \<open>''\<close> are false.\<close>

definition or_else :: "string option \<Rightarrow> string \<Rightarrow> string" where
  "or_else x d = (case x of None \<Rightarrow> d | Some s \<Rightarrow> if s = [] then d else s)"

definition truthy :: "string option \<Rightarrow> bool" where
  "truthy x = (case x of None \<Rightarrow> False | Some s \<Rightarrow> s \<noteq> [])"

text \<open>\<open>Downloader(output_dir=..., user_agent=..., respect_robots=...)\<close>, with the
  default \<open>rate_limit\<close>.\<close>

definition Downloader :: "string \<Rightarrow> string option \<Rightarrow> bool \<Rightarrow> downloader" where
  "Downloader out ua rr =
     \<lparr>output_dir = path_of out, user_agent = or_else ua default_user_agent,
      respect_robots = rr, rate_limit = 1 / 2\<rparr>"

subsection \<open>The robots gate\<close>

text \<open>
  \<open>urllib.robotparser.RobotFileParser\<close>, from the standard library: its flags, the
  time of the last read (\<open>0\<close> until a body was parsed) and the decision of its entries.
  A new parser has no entries, which grants every request.
\<close>

record robot_file_parser =
  disallow_all :: bool
  allow_all :: bool
  last_checked :: rat
  entries :: "string \<Rightarrow> string \<Rightarrow> bool"

definition RobotFileParser :: robot_file_parser where
  "RobotFileParser =
     \<lparr>disallow_all = False, allow_all = False, last_checked = 0, entries = (\<lambda>agent url. True)\<rparr>"

text \<open>
  \<open>RobotFileParser.read\<close>: an \<open>HTTPError\<close> is caught and sets a flag for the codes
  401 and 403 (deny all) and for the other codes from 400 to 499 (allow all); a body is
  parsed, which stamps \<open>last_checked\<close>; any other exception leaves \<open>read\<close>.
\<close>

definition read :: "rat \<Rightarrow> robots_response \<Rightarrow> robot_file_parser \<Rightarrow> exn + robot_file_parser" where
  "read t resp p =
     (case resp of
        RobotsHTTPError code \<Rightarrow>
          (if code = 401 \<or> code = 403 then Inr (p\<lparr>disallow_all := True\<rparr>)
           else if 400 \<le> code \<and> code < 500 then Inr (p\<lparr>allow_all := True\<rparr>)
           else Inr p)
      | RobotsBody decision \<Rightarrow> Inr (p\<lparr>last_checked := t, entries := decision\<rparr>)
      | RobotsRaises e \<Rightarrow> Inl (OtherException e))"

definition can_fetch :: "robot_file_parser \<Rightarrow> string \<Rightarrow> string \<Rightarrow> bool" where
  "can_fetch p useragent url =
     (if disallow_all p then False
      else if allow_all p then True
      else if last_checked p = 0 then False
      else entries p useragent url)"

text \<open>\<open>Downloader._get_robots_parser\<close>: an exception of \<open>parser.read()\<close> is caught and
  the parser is returned as it is.\<close>

definition get_robots_parser :: "env \<Rightarrow> string \<Rightarrow> exn + robot_file_parser" where
  "get_robots_parser e root_url =
     (case urljoin e root_url ''/robots.txt'' of
        Inl x \<Rightarrow> Inl x
      | Inr robots_url \<Rightarrow>
          (let parser = RobotFileParser
           in case read (time_time e) (robots_txt e robots_url) parser of
                Inl x \<Rightarrow> Inr parser
              | Inr parser' \<Rightarrow> Inr parser'))"

definition allowed_by_robots :: "downloader \<Rightarrow> env \<Rightarrow> string \<Rightarrow> exn + bool" where
  "allowed_by_robots d e url =
     (if \<not> respect_robots d then Inr True
      else
        (case urlparse e url of
           Inl x \<Rightarrow> Inl x
         | Inr parsed \<Rightarrow>
             (let root_url = scheme parsed @ ''://'' @ netloc parsed
              in case get_robots_parser e root_url of
                   Inl x \<Rightarrow> Inl x
                 | Inr parser \<Rightarrow> Inr (can_fetch parser (user_agent d) url))))"

subsection \<open>Static fetching with retries (\<open>Downloader.fetch\<close>, static mode)\<close>

definition user_agents :: "string list" where
  "user_agents =
     [''Mozilla/5.0 (Windows NT 10.0; Win64; x64) AppleWebKit/537.36 (KHTML, like Gecko) Chrome/120.0.0.0 Safari/537.36'',
      ''Mozilla/5.0 (Macintosh; Intel Mac OS X 10_15_7) AppleWebKit/537.36 (KHTML, like Gecko) Chrome/120.0.0.0 Safari/537.36'',
      ''Mozilla/5.0 (X11; Linux x86_64) AppleWebKit/537.36 (KHTML, like Gecko) Chrome/120.0.0.0 Safari/537.36'',
      ''Mozilla/5.0 (Windows NT 10.0; Win64; x64; rv:121.0) Gecko/20100101 Firefox/121.0'']"

definition wait_time :: "nat \<Rightarrow> nat" where
  "wait_time attempt = min (2 ^ attempt) 16"

text \<open>
  \<open>for attempt in range(8)\<close>, entered at \<open>attempt\<close>. The argument \<open>get\<close> gives the
  outcome of the GET of each attempt. The \<open>else\<close> of the \<open>for\<close> is the branch
  \<open>8 \<le> attempt\<close>.
\<close>

function static_fetch_from ::
  "(nat \<Rightarrow> get_outcome) \<Rightarrow> nat \<Rightarrow> world \<Rightarrow> (exn + string) \<times> world" where
  "static_fetch_from get attempt w =
     (if 8 \<le> attempt then (Inl (RuntimeError ''Failed to download after 8 attempts''), w)
      else
        (let w1 = w\<lparr>gets := gets w @ [user_agents ! (attempt mod length user_agents)]\<rparr>
         in case get attempt of
              GetOk text \<Rightarrow> (Inr text, w1)
            | GetRequestException e \<Rightarrow>
                (if attempt = 7 then (Inl (RequestException e), w1)
                 else static_fetch_from get (attempt + 1)
                        (w1\<lparr>sleeps := sleeps w1 @ [of_nat (wait_time attempt)]\<rparr>))
            | GetOtherException e \<Rightarrow> (Inl (OtherException e), w1)))"
  by pat_completeness auto
termination
  by (relation "measure (\<lambda>(get, attempt, w). 8 - attempt)") auto

declare static_fetch_from.simps [simp del]

definition static_fetch :: "(nat \<Rightarrow> get_outcome) \<Rightarrow> world \<Rightarrow> (exn + string) \<times> world" where
  "static_fetch get w = static_fetch_from get 0 w"

subsection \<open>The name of the saved page\<close>

text \<open>
  The part of \<open>Downloader.fetch\<close> under the comment "save main HTML": the path of
  the page file from the output directory, the parsed URL and \<open>custom_filename\<close>.
\<close>

definition safe_host_of :: "parsed_url \<Rightarrow> string" where
  "safe_host_of parsed = replace_char (CHR '':'') (CHR ''_'') (netloc parsed)"

definition safe_path_of :: "parsed_url \<Rightarrow> string" where
  "safe_path_of parsed = or_else (Some (strip_where (\<lambda>c. c = CHR ''/'') (path parsed))) ''index''"

definition page_filename :: "downloader \<Rightarrow> env \<Rightarrow> string \<Rightarrow> string option \<Rightarrow> exn + pypath" where
  "page_filename d e url custom_filename =
     (case (if truthy custom_filename then
              (let filename = path_join (output_dir d) (the custom_filename)
               in if path_suffix filename = [] then with_suffix filename ''.html''
                  else Inr filename)
            else
              (case urlparse e url of
                 Inl x \<Rightarrow> Inl x
               | Inr parsed \<Rightarrow>
                   (let safe_host = safe_host_of parsed;
                        safe_path = safe_path_of parsed
                    in if CHR ''.'' \<in> set safe_path
                       then Inr (path_join (output_dir d) (safe_host @ ''_'' @ safe_path))
                       else Inr (path_join (output_dir d)
                                   (safe_host @ ''_'' @ safe_path @ ''.html''))))) of
        Inl x \<Rightarrow> Inl x
      | Inr filename \<Rightarrow> Inr (path_of (path_str filename)))"

subsection \<open>Assets\<close>

text \<open>The reference of an element that \<open>_parse_assets\<close> collects, if any.\<close>

definition asset_ref :: "tag \<Rightarrow> string option" where
  "asset_ref t =
     (if tag_name t = ''img'' \<and> truthy (src t) then src t
      else if tag_name t = ''script'' \<and> truthy (src t) then src t
      else if tag_name t = ''link'' \<and> truthy (href t) \<and>
              (case rel t of None \<Rightarrow> False | Some r \<Rightarrow> r \<noteq> [] \<and> ''stylesheet'' \<in> set r)
        then href t
      else None)"

definition find_all :: "string list \<Rightarrow> tag list \<Rightarrow> tag list" where
  "find_all names soup = filter (\<lambda>t. tag_name t \<in> set names) soup"

text \<open>\<open>[urljoin(base_url, u) for u in candidates]\<close>: the first exception ends it.\<close>

fun resolve_all :: "env \<Rightarrow> string \<Rightarrow> string list \<Rightarrow> exn + string list" where
  "resolve_all e base_url [] = Inr []"
| "resolve_all e base_url (u # us) =
     (case urljoin e base_url u of
        Inl x \<Rightarrow> Inl x
      | Inr full \<Rightarrow>
          (case resolve_all e base_url us of
             Inl x \<Rightarrow> Inl x
           | Inr fulls \<Rightarrow> Inr (full # fulls)))"

text \<open>The deduplication loop of \<open>_parse_assets\<close>: the first occurrence is kept.\<close>

fun dedup :: "string list \<Rightarrow> string list \<Rightarrow> string list" where
  "dedup seen [] = []"
| "dedup seen (u # us) = (if u \<in> set seen then dedup seen us else u # dedup (u # seen) us)"

definition parse_assets :: "env \<Rightarrow> string \<Rightarrow> string \<Rightarrow> exn + string list" where
  "parse_assets e html base_url =
     (let soup = parse_html e html;
          candidates = List.map_filter asset_ref (find_all [''img'', ''script'', ''link''] soup)
      in case resolve_all e base_url candidates of
           Inl x \<Rightarrow> Inl x
         | Inr resolved \<Rightarrow> Inr (dedup [] resolved))"

text \<open>
  \<open>Downloader._download_asset\<close>: \<open>None\<close> when robots denies; otherwise the chunks up
  to the first empty one are written to \<open>output_dir/assets/safe_host/filename\<close>.
\<close>

definition download_asset ::
  "downloader \<Rightarrow> env \<Rightarrow> string \<Rightarrow> world \<Rightarrow> (exn + pypath option) \<times> world" where
  "download_asset d e url w =
     (case allowed_by_robots d e url of
        Inl x \<Rightarrow> (Inl x, w)
      | Inr False \<Rightarrow> (Inr None, w)
      | Inr True \<Rightarrow>
          (case asset_get e url of
             Inl x \<Rightarrow> (Inl x, w)
           | Inr chunks \<Rightarrow>
               (case urlparse e url of
                  Inl x \<Rightarrow> (Inl x, w)
                | Inr parsed \<Rightarrow>
                    (let safe_host = safe_host_of parsed;
                         out_dir = path_join (path_join (output_dir d) ''assets'') safe_host;
                         filename = or_else (Some (basename (path parsed))) ''unnamed'';
                         target = path_join out_dir filename;
                         content = concat (takeWhile (\<lambda>chunk. chunk \<noteq> []) chunks)
                     in (Inr (Some target), w\<lparr>fs := (fs w)(path_str target \<mapsto> content)\<rparr>)))))"

datatype attr = Src | Href

definition set_attr :: "attr \<Rightarrow> string \<Rightarrow> tag \<Rightarrow> tag" where
  "set_attr a v t = (case a of Src \<Rightarrow> t\<lparr>src := Some v\<rparr> | Href \<Rightarrow> t\<lparr>href := Some v\<rparr>)"

text \<open>\<open>save_and_replace\<close>, the local function of \<open>_rewrite_assets_and_save\<close>: every
  exception is caught and leaves the element as it is.\<close>

definition save_and_replace ::
  "downloader \<Rightarrow> env \<Rightarrow> string \<Rightarrow> attr \<Rightarrow> tag \<Rightarrow> string \<Rightarrow> world \<Rightarrow> tag \<times> world" where
  "save_and_replace d e base_url a t orig_url w =
     (case urljoin e base_url orig_url of
        Inl x \<Rightarrow> (t, w)
      | Inr full \<Rightarrow>
          (case download_asset d e full w of
             (Inl x, w') \<Rightarrow> (t, w')
           | (Inr None, w') \<Rightarrow> (t, w')
           | (Inr (Some local), w') \<Rightarrow>
               (let rel = relpath local (output_dir d)
                in (set_attr a (replace_char (CHR 0x5C) (CHR ''/'') rel) t, w'))))"

text \<open>One \<open>for\<close> loop of \<open>_rewrite_assets_and_save\<close> over the elements of the
  document: \<open>sel\<close> gives the attribute and the reference of the elements it handles.\<close>

fun rewrite_pass ::
  "downloader \<Rightarrow> env \<Rightarrow> string \<Rightarrow> (tag \<Rightarrow> (attr \<times> string) option) \<Rightarrow> tag list \<Rightarrow> world
     \<Rightarrow> tag list \<times> world" where
  "rewrite_pass d e base_url sel [] w = ([], w)"
| "rewrite_pass d e base_url sel (t # ts) w =
     (case (case sel t of
              None \<Rightarrow> (t, w)
            | Some (a, orig_url) \<Rightarrow> save_and_replace d e base_url a t orig_url w) of
        (t', w') \<Rightarrow>
          (case rewrite_pass d e base_url sel ts w' of
             (ts', w'') \<Rightarrow> (t' # ts', w'')))"

definition img_sel :: "tag \<Rightarrow> (attr \<times> string) option" where
  "img_sel t = (if tag_name t = ''img'' \<and> truthy (src t) then Some (Src, the (src t)) else None)"

definition script_sel :: "tag \<Rightarrow> (attr \<times> string) option" where
  "script_sel t =
     (if tag_name t = ''script'' \<and> truthy (src t) then Some (Src, the (src t)) else None)"

definition link_sel :: "tag \<Rightarrow> (attr \<times> string) option" where
  "link_sel t =
     (if tag_name t = ''link'' \<and> truthy (href t) \<and>
         ''stylesheet'' \<in> set (case rel t of None \<Rightarrow> [] | Some r \<Rightarrow> r)
      then Some (Href, the (href t)) else None)"

definition rewrite_assets_and_save ::
  "downloader \<Rightarrow> env \<Rightarrow> string \<Rightarrow> string \<Rightarrow> string list \<Rightarrow> world \<Rightarrow> string \<times> world" where
  "rewrite_assets_and_save d e html base_url assets w =
     (let soup = parse_html e html
      in case rewrite_pass d e base_url img_sel soup w of
           (soup1, w1) \<Rightarrow>
             (case rewrite_pass d e base_url script_sel soup1 w1 of
                (soup2, w2) \<Rightarrow>
                  (case rewrite_pass d e base_url link_sel soup2 w2 of
                     (soup3, w3) \<Rightarrow> (soup_str e soup3, w3))))"

text \<open>The loop of \<open>fetch\<close> for \<open>save_assets\<close> without rewriting: an exception of a
  download is caught before the sleep.\<close>

fun download_assets :: "downloader \<Rightarrow> env \<Rightarrow> string list \<Rightarrow> world \<Rightarrow> world" where
  "download_assets d e [] w = w"
| "download_assets d e (a # as) w =
     (case download_asset d e a w of
        (Inl x, w') \<Rightarrow> download_assets d e as w'
      | (Inr local, w') \<Rightarrow> download_assets d e as (w'\<lparr>sleeps := sleeps w' @ [rate_limit d]\<rparr>))"

subsection \<open>\<open>Downloader.fetch\<close>\<close>

text \<open>
  The content of the page: Playwright when \<open>render_js\<close>, the retry loop otherwise.
\<close>

definition fetch_content :: "env \<Rightarrow> string \<Rightarrow> bool \<Rightarrow> world \<Rightarrow> (exn + string) \<times> world" where
  "fetch_content e url render_js w =
     (if render_js then (render e url, w) else static_fetch (page_get e url) w)"

text \<open>
  \<open>fetch\<close> returns the path of the page file, or raises. The page file is written
  before the assets are handled; the string that \<open>_rewrite_assets_and_save\<close> returns
  is assigned to \<open>content\<close> and not used again.
\<close>

definition fetch ::
  "downloader \<Rightarrow> env \<Rightarrow> string \<Rightarrow> bool \<Rightarrow> bool \<Rightarrow> bool \<Rightarrow> string option \<Rightarrow> world
     \<Rightarrow> (exn + pypath) \<times> world" where
  "fetch d e url render_js save_assets rewrite_assets custom_filename w =
     (case allowed_by_robots d e url of
        Inl x \<Rightarrow> (Inl x, w)
      | Inr False \<Rightarrow> (Inl (PermissionError ''Fetching disallowed by robots.txt''), w)
      | Inr True \<Rightarrow>
          (case fetch_content e url render_js w of
             (Inl x, w1) \<Rightarrow> (Inl x, w1)
           | (Inr content, w1) \<Rightarrow>
               (case page_filename d e url custom_filename of
                  Inl x \<Rightarrow> (Inl x, w1)
                | Inr filename \<Rightarrow>
                    (let w2 = w1\<lparr>fs := (fs w1)(path_str filename \<mapsto> content)\<rparr>
                     in if save_assets then
                          (case parse_assets e content url of
                             Inl x \<Rightarrow> (Inl x, w2)
                           | Inr assets \<Rightarrow>
                               (if rewrite_assets then
                                  (case rewrite_assets_and_save d e content url assets w2 of
                                     (content', w3) \<Rightarrow> (Inr filename, w3))
                                else (Inr filename, download_assets d e assets w2)))
                        else (Inr filename, w2)))))"

section \<open>\<open>Crawler\<close>\<close>

record crawl_result =
  cr_url :: string
  cr_saved_path :: "string option"
  cr_error :: "string option"

text \<open>
  The fields of a \<open>Crawler\<close> that \<open>crawl\<close> reads. A compiled pattern is the test
  \<open>p.search(l)\<close> it stands for. The last three fields are the arguments of \<open>crawl\<close>
  that are passed on to \<open>Downloader.fetch\<close>; \<open>progress_callback\<close> is \<open>None\<close>.
\<close>

record crawler =
  c_output_dir :: string
  c_user_agent :: "string option"
  max_depth :: int
  max_pages :: int
  same_domain :: bool
  concurrency :: int
  per_host_delay :: rat
  c_respect_robots :: bool
  include_patterns :: "(string \<Rightarrow> bool) list"
  exclude_patterns :: "(string \<Rightarrow> bool) list"
  arg_render_js :: bool
  arg_save_assets :: bool
  arg_rewrite_assets :: bool

subsection \<open>Sequential parts\<close>

text \<open>The first lines of \<open>crawl\<close>: the start URL is stripped and given a scheme.\<close>

definition normalize_start_url :: "string \<Rightarrow> string" where
  "normalize_start_url start_url =
     (let start_url1 = py_strip start_url
      in if \<not> startswith start_url1 ''http://'' \<and> \<not> startswith start_url1 ''https://''
         then ''https://'' @ start_url1 else start_url1)"

text \<open>\<open>Crawler._discover_links\<close>: an exception of \<open>urljoin\<close> leaves the function.\<close>

fun resolve_links :: "env \<Rightarrow> string \<Rightarrow> tag list \<Rightarrow> exn + string list" where
  "resolve_links e base_url [] = Inr []"
| "resolve_links e base_url (a # as) =
     (if \<not> truthy (href a) then resolve_links e base_url as
      else if startswith (the (href a)) ''javascript:'' \<or> startswith (the (href a)) ''mailto:''
        then resolve_links e base_url as
      else
        (case urljoin e base_url (the (href a)) of
           Inl x \<Rightarrow> Inl x
         | Inr resolved \<Rightarrow>
             (case resolve_links e base_url as of
                Inl x \<Rightarrow> Inl x
              | Inr out \<Rightarrow> Inr (resolved # out))))"

definition discover_links :: "env \<Rightarrow> string \<Rightarrow> string \<Rightarrow> exn + string list" where
  "discover_links e html base_url = resolve_links e base_url (find_all [''a''] (parse_html e html))"

text \<open>The filters and the bound of the loop over the discovered links: whether the
  link \<open>l\<close> is appended to the queue.\<close>

definition enqueue_ok :: "crawler \<Rightarrow> string set \<Rightarrow> (string \<times> nat) list \<Rightarrow> string \<Rightarrow> bool" where
  "enqueue_ok c vis q l =
     (if include_patterns c \<noteq> [] \<and> \<not> list_ex (\<lambda>p. p l) (include_patterns c) then False
      else if list_ex (\<lambda>p. p l) (exclude_patterns c) then False
      else l \<notin> vis \<and> int (card vis) + int (length q) < max_pages c)"

subsection \<open>Threads\<close>

text \<open>
  \<open>crawl\<close> runs a main thread and the workers of a \<open>ThreadPoolExecutor\<close>. A thread
  is a program counter over the source; one step of a thread is one access to the
  shared state (\<open>_visited\<close>, \<open>_results\<close>, \<open>_host_last\<close>, \<open>_lock\<close>, \<open>queue\<close>) with
  the local computation after it. The program counters of a worker:
  \<^item> \<open>Submitted\<close>: in the queue of the executor; it starts with the test of line 114;
  \<^item> \<open>At_visited_check\<close>: the test of line 116, outside the lock;
  \<^item> \<open>At_visited_add\<close>: lines 118 to 124, the insertion under the lock and the
    test of the host;
  \<^item> \<open>At_robots\<close>: lines 126 to 131;
  \<^item> \<open>At_wait_lock\<close>, \<open>At_sleep\<close>, \<open>At_stamp\<close>: \<open>_wait_for_host\<close>, entering
    the lock and computing the wait, sleeping until a time, writing the time and
    leaving the lock;
  \<^item> \<open>At_fetch\<close>: lines 135 to 149 and the handler of line 164;
  \<^item> \<open>At_discover\<close>: lines 150 to 154 and the handler of line 164;
  \<^item> \<open>At_links_lock\<close>: line 155; \<open>At_links\<close>: the loop of line 156, one link for
    each step, and leaving the lock at its end;
  \<^item> \<open>Finished\<close>: the worker has returned or has died of an exception.
\<close>

datatype wpc =
    Submitted
  | At_visited_check
  | At_visited_add
  | At_robots string
  | At_wait_lock string
  | At_sleep string rat
  | At_stamp string
  | At_fetch
  | At_discover pypath
  | At_links_lock "string list"
  | At_links "string list"
  | Finished

record worker =
  w_url :: string
  w_depth :: nat
  pc :: wpc

text \<open>The main thread: the test of the \<open>while\<close> of line 173, lines 174 and 175,
  the wait for the futures, and the return.\<close>

datatype mpc = M_while | M_pop | M_wait | M_return

text \<open>
  The shared state. \<open>futures\<close> holds the workers in the order of their submission; a
  worker is named by its index. \<open>clock\<close> is the reading of \<open>time.time()\<close>,
  \<open>files\<close> is what the fetches have written. \<open>fetched\<close> and \<open>stamps\<close> record the
  calls of \<open>downloader.fetch\<close> and the writes to \<open>_host_last\<close>, in order.
\<close>

record cstate =
  visited :: "string set"
  host_last :: "string \<rightharpoonup> rat"
  results :: "crawl_result list"
  queue :: "(string \<times> nat) list"
  lock :: "nat option"
  futures :: "worker list"
  main_pc :: mpc
  start_host :: string
  clock :: rat
  files :: world
  fetched :: "string list"
  stamps :: "(string \<times> rat) list"

definition set_pc :: "nat \<Rightarrow> wpc \<Rightarrow> cstate \<Rightarrow> cstate" where
  "set_pc i p s = s\<lparr>futures := (futures s)[i := (futures s ! i)\<lparr>pc := p\<rparr>]\<rparr>"

definition append_result :: "crawl_result \<Rightarrow> cstate \<Rightarrow> cstate" where
  "append_result r s = s\<lparr>results := results s @ [r]\<rparr>"

text \<open>The workers that occupy a thread of the pool.\<close>

definition active :: "cstate \<Rightarrow> nat" where
  "active s = length (filter (\<lambda>w. pc w \<noteq> Submitted \<and> pc w \<noteq> Finished) (futures s))"

text \<open>
  One step of worker \<open>i\<close>; \<open>None\<close> when the worker cannot move: it is finished, it
  waits for a thread of the pool (at most \<open>concurrency\<close> workers run, in the order of
  submission), it waits for the lock, or it sleeps.
\<close>

definition worker_step :: "crawler \<Rightarrow> env \<Rightarrow> nat \<Rightarrow> cstate \<Rightarrow> cstate option" where
  "worker_step c e i s =
     (let w = futures s ! i; u = w_url w
      in case pc w of
           Submitted \<Rightarrow>
             (if int (active s) < concurrency c \<and>
                 list_all (\<lambda>w'. pc w' \<noteq> Submitted) (take i (futures s))
              then Some (set_pc i (if max_pages c \<le> int (length (results s)) then Finished
                                   else At_visited_check) s)
              else None)
         | At_visited_check \<Rightarrow>
             Some (set_pc i (if u \<in> visited s then Finished else At_visited_add) s)
         | At_visited_add \<Rightarrow>
             (if lock s \<noteq> None then None
              else
                (let s1 = s\<lparr>visited := insert u (visited s)\<rparr>
                 in case urlparse e u of
                      Inl x \<Rightarrow> Some (set_pc i Finished s1)
                    | Inr parsed \<Rightarrow>
                        (let host = netloc parsed
                         in if same_domain c \<and> host \<noteq> start_host s
                            then Some (set_pc i Finished s1)
                            else Some (set_pc i (At_robots host) s1))))
         | At_robots host \<Rightarrow>
             (if c_respect_robots c then
                (let dtmp = Downloader (c_output_dir c) (c_user_agent c) True
                 in case allowed_by_robots dtmp e u of
                      Inl x \<Rightarrow> Some (set_pc i Finished s)
                    | Inr False \<Rightarrow>
                        Some (set_pc i Finished
                               (append_result
                                  \<lparr>cr_url = u, cr_saved_path = None,
                                   cr_error = Some ''Disallowed by robots.txt''\<rparr> s))
                    | Inr True \<Rightarrow> Some (set_pc i (At_wait_lock host) s))
              else Some (set_pc i (At_wait_lock host) s))
         | At_wait_lock host \<Rightarrow>
             (if lock s \<noteq> None then None
              else
                (let last = (case host_last s host of None \<Rightarrow> 0 | Some t \<Rightarrow> t);
                     now = clock s;
                     wait = per_host_delay c - (now - last)
                 in Some (set_pc i (if 0 < wait then At_sleep host (now + wait) else At_stamp host)
                            (s\<lparr>lock := Some i\<rparr>))))
         | At_sleep host until \<Rightarrow>
             (if clock s < until then None else Some (set_pc i (At_stamp host) s))
         | At_stamp host \<Rightarrow>
             Some (set_pc i At_fetch
                    (s\<lparr>host_last := (host_last s)(host \<mapsto> clock s), lock := None,
                       stamps := stamps s @ [(host, clock s)]\<rparr>))
         | At_fetch \<Rightarrow>
             (let downloader = Downloader (c_output_dir c) (c_user_agent c) (c_respect_robots c)
              in case fetch downloader e u (arg_render_js c) (arg_save_assets c)
                        (arg_rewrite_assets c) None (files s) of
                   (Inl x, fw) \<Rightarrow>
                     Some (set_pc i Finished
                            (append_result
                               \<lparr>cr_url = u, cr_saved_path = None, cr_error = Some (str_exn x)\<rparr>
                               (s\<lparr>files := fw, fetched := fetched s @ [u]\<rparr>)))
                 | (Inr saved, fw) \<Rightarrow>
                     Some (set_pc i (if int (w_depth w) < max_depth c then At_discover saved
                                     else Finished)
                            (append_result
                               \<lparr>cr_url = u, cr_saved_path = Some (path_str saved), cr_error = None\<rparr>
                               (s\<lparr>files := fw, fetched := fetched s @ [u]\<rparr>))))
         | At_discover saved \<Rightarrow>
             (let html = (case fs (files s) (path_str saved) of None \<Rightarrow> [] | Some text \<Rightarrow> text)
              in case discover_links e html u of
                   Inl x \<Rightarrow>
                     Some (set_pc i Finished
                            (append_result
                               \<lparr>cr_url = u, cr_saved_path = None, cr_error = Some (str_exn x)\<rparr> s))
                 | Inr links \<Rightarrow> Some (set_pc i (At_links_lock links) s))
         | At_links_lock links \<Rightarrow>
             (if lock s \<noteq> None then None
              else Some (set_pc i (At_links links) (s\<lparr>lock := Some i\<rparr>)))
         | At_links links \<Rightarrow>
             (case links of
                [] \<Rightarrow> Some (set_pc i Finished (s\<lparr>lock := None\<rparr>))
              | l # ls \<Rightarrow>
                  Some (set_pc i (At_links ls)
                         (if enqueue_ok c (visited s) (queue s) l
                          then s\<lparr>queue := queue s @ [(l, w_depth w + 1)]\<rparr> else s)))
         | Finished \<Rightarrow> None)"

text \<open>One step of the main thread; it waits until every future is done.\<close>

definition main_step :: "crawler \<Rightarrow> cstate \<Rightarrow> cstate option" where
  "main_step c s =
     (case main_pc s of
        M_while \<Rightarrow>
          Some (s\<lparr>main_pc := (if queue s \<noteq> [] \<and> int (length (results s)) < max_pages c
                               then M_pop else M_wait)\<rparr>)
      | M_pop \<Rightarrow>
          (case queue s of
             [] \<Rightarrow> None
           | (u, depth) # q \<Rightarrow>
               Some (s\<lparr>queue := q,
                       futures := futures s @ [\<lparr>w_url = u, w_depth = depth, pc = Submitted\<rparr>],
                       main_pc := M_while\<rparr>))
      | M_wait \<Rightarrow>
          (if list_all (\<lambda>w. pc w = Finished) (futures s) then Some (s\<lparr>main_pc := M_return\<rparr>)
           else None)
      | M_return \<Rightarrow> None)"

text \<open>A schedule is a list of actions: a step of the main thread, a step of a worker,
  or the passing of time.\<close>

datatype action = Main | Run nat | Tick rat

definition step :: "crawler \<Rightarrow> env \<Rightarrow> cstate \<Rightarrow> action \<Rightarrow> cstate option" where
  "step c e s act =
     (case act of
        Main \<Rightarrow> main_step c s
      | Run i \<Rightarrow> (if i < length (futures s) then worker_step c e i s else None)
      | Tick d \<Rightarrow> (if 0 \<le> d then Some (s\<lparr>clock := clock s + d\<rparr>) else None))"

fun run :: "crawler \<Rightarrow> env \<Rightarrow> cstate \<Rightarrow> action list \<Rightarrow> cstate option" where
  "run c e s [] = Some s"
| "run c e s (act # acts) =
     (case step c e s act of None \<Rightarrow> None | Some s' \<Rightarrow> run c e s' acts)"

text \<open>
  The state in which the threads of \<open>crawl(start_url)\<close> start, for a new \<open>Crawler\<close>,
  at the time \<open>t0\<close> and with the files \<open>w0\<close>. \<open>urlparse\<close> may raise, and
  \<open>ThreadPoolExecutor\<close> raises for \<open>max_workers\<close> below 1.
\<close>

definition crawl_start :: "crawler \<Rightarrow> env \<Rightarrow> rat \<Rightarrow> world \<Rightarrow> string \<Rightarrow> exn + cstate" where
  "crawl_start c e t0 w0 start_url =
     (let start_url1 = normalize_start_url start_url
      in case urlparse e start_url1 of
           Inl x \<Rightarrow> Inl x
         | Inr parsed \<Rightarrow>
             (if concurrency c \<le> 0 then Inl (ValueError ''max_workers must be greater than 0'')
              else Inr \<lparr>visited = {}, host_last = Map.empty, results = [],
                        queue = [(start_url1, 0)], lock = None, futures = [],
                        main_pc = M_while, start_host = netloc parsed, clock = t0,
                        files = w0, fetched = [], stamps = []\<rparr>))"

text \<open>What \<open>crawl\<close> returns under a schedule, if the schedule runs it to its return.\<close>

definition crawl :: "crawler \<Rightarrow> env \<Rightarrow> rat \<Rightarrow> world \<Rightarrow> string \<Rightarrow> action list
    \<Rightarrow> (exn + crawl_result list) option" where
  "crawl c e t0 w0 start_url sched =
     (case crawl_start c e t0 w0 start_url of
        Inl x \<Rightarrow> Some (Inl x)
      | Inr s0 \<Rightarrow>
          (case run c e s0 sched of
             None \<Rightarrow> None
           | Some s \<Rightarrow> (if main_pc s = M_return then Some (Inr (results s)) else None)))"

text \<open>Whether the GET of an attempt ended in an exception that the loop retries.\<close>

definition is_request_exception :: "get_outcome \<Rightarrow> bool" where
  "is_request_exception r = (case r of GetRequestException m \<Rightarrow> True | _ \<Rightarrow> False)"

section \<open>Invariants of the threads\<close>

text \<open>The program counters of a worker that has passed the test of its host
  (line 122), and the test itself for a URL.\<close>

fun checked :: "wpc \<Rightarrow> bool" where
  "checked Submitted = False"
| "checked At_visited_check = False"
| "checked At_visited_add = False"
| "checked Finished = False"
| "checked _ = True"

definition host_ok :: "crawler \<Rightarrow> env \<Rightarrow> string \<Rightarrow> string \<Rightarrow> bool" where
  "host_ok c e h u =
     (same_domain c \<longrightarrow> (case urlparse e u of Inl x \<Rightarrow> False | Inr parsed \<Rightarrow> netloc parsed = h))"

text \<open>What holds of the workers past the test, of the results and of the fetches.\<close>

definition inv_hosts :: "crawler \<Rightarrow> env \<Rightarrow> cstate \<Rightarrow> bool" where
  "inv_hosts c e s =
     ((\<forall>w \<in> set (futures s). checked (pc w) \<longrightarrow> host_ok c e (start_host s) (w_url w)) \<and>
      (\<forall>r \<in> set (results s). host_ok c e (start_host s) (cr_url r)) \<and>
      (\<forall>u \<in> set (fetched s). host_ok c e (start_host s) u))"

text \<open>Every job of depth 0 is the seed.\<close>

definition inv_seed :: "string \<Rightarrow> cstate \<Rightarrow> bool" where
  "inv_seed seed s =
     ((\<forall>w \<in> set (futures s). w_depth w = 0 \<longrightarrow> w_url w = seed) \<and>
      (\<forall>u. (u, 0) \<in> set (queue s) \<longrightarrow> u = seed))"




section \<open>Example inputs\<close>

text \<open>
  A small web, used to run the program on concrete inputs. Each table gives what the
  library or the network returns on the listed arguments; an argument outside a table
  raises. The host \<open>example.com\<close> answers, and its \<open>robots.txt\<close> does not exist;
  the \<open>robots.txt\<close> of \<open>offline.example\<close> cannot be fetched; every GET of a page of
  \<open>busy.example\<close> ends in a server error.
\<close>

definition web_urls :: "(string \<times> parsed_url) list" where
  "web_urls =
     [(''https://example.com'', \<lparr>scheme = ''https'', netloc = ''example.com'', path = []\<rparr>),
      (''https://example.com/img'', \<lparr>scheme = ''https'', netloc = ''example.com'', path = ''/img''\<rparr>),
      (''https://example.com/a.png'', \<lparr>scheme = ''https'', netloc = ''example.com'', path = ''/a.png''\<rparr>),
      (''https://example.com/v1.2/docs'',
         \<lparr>scheme = ''https'', netloc = ''example.com'', path = ''/v1.2/docs''\<rparr>),
      (''https://example.com/bad'', \<lparr>scheme = ''https'', netloc = ''example.com'', path = ''/bad''\<rparr>),
      (''https://example.com/dup'', \<lparr>scheme = ''https'', netloc = ''example.com'', path = ''/dup''\<rparr>),
      (''https://example.com/two'', \<lparr>scheme = ''https'', netloc = ''example.com'', path = ''/two''\<rparr>),
      (''https://example.com/a'', \<lparr>scheme = ''https'', netloc = ''example.com'', path = ''/a''\<rparr>),
      (''https://other.example/y'', \<lparr>scheme = ''https'', netloc = ''other.example'', path = ''/y''\<rparr>),
      (''https://offline.example'', \<lparr>scheme = ''https'', netloc = ''offline.example'', path = []\<rparr>),
      (''https://busy.example'', \<lparr>scheme = ''https'', netloc = ''busy.example'', path = []\<rparr>),
      (''https://example.com/pair'', \<lparr>scheme = ''https'', netloc = ''example.com'', path = ''/pair''\<rparr>),
      (''https://example.com/b'', \<lparr>scheme = ''https'', netloc = ''example.com'', path = ''/b''\<rparr>)]"

definition web_joins :: "((string \<times> string) \<times> (exn + string)) list" where
  "web_joins =
     [((''https://example.com'', ''/robots.txt''), Inr ''https://example.com/robots.txt''),
      ((''https://other.example'', ''/robots.txt''), Inr ''https://other.example/robots.txt''),
      ((''https://offline.example'', ''/robots.txt''), Inr ''https://offline.example/robots.txt''),
      ((''https://busy.example'', ''/robots.txt''), Inr ''https://busy.example/robots.txt''),
      ((''https://example.com/img'', ''/a.png''), Inr ''https://example.com/a.png''),
      ((''https://example.com/bad'', ''http://[''), Inl (ValueError ''Invalid IPv6 URL'')),
      ((''https://example.com/dup'', ''/a''), Inr ''https://example.com/a''),
      ((''https://example.com/two'', ''/a''), Inr ''https://example.com/a''),
      ((''https://example.com/two'', ''https://other.example/y''), Inr ''https://other.example/y''),
      ((''https://example.com/pair'', ''/a''), Inr ''https://example.com/a''),
      ((''https://example.com/pair'', ''/b''), Inr ''https://example.com/b'')]"

definition web_pages :: "(string \<times> string) list" where
  "web_pages =
     [(''https://example.com'', ''<title>Example Domain</title>''),
      (''https://example.com/img'', ''<img src=/a.png>''),
      (''https://example.com/v1.2/docs'', ''docs''),
      (''https://example.com/bad'', ''<a href=http://[>x</a>''),
      (''https://example.com/dup'', ''<a href=/a>1</a><a href=/a>2</a>''),
      (''https://example.com/two'', ''<a href=/a>1</a><a href=https://other.example/y>2</a>''),
      (''https://example.com/a'', ''A''),
      (''https://other.example/y'', ''Y''),
      (''https://example.com/pair'', ''<a href=/a>1</a><a href=/b>2</a>''),
      (''https://example.com/b'', ''B'')]"

definition anchor :: "string \<Rightarrow> tag" where
  "anchor h = \<lparr>tag_name = ''a'', src = None, href = Some h, rel = None\<rparr>"

definition img :: "string \<Rightarrow> tag" where
  "img s = \<lparr>tag_name = ''img'', src = Some s, href = None, rel = None\<rparr>"

definition web_documents :: "(string \<times> tag list) list" where
  "web_documents =
     [(''<img src=/a.png>'', [img ''/a.png'']),
      (''<a href=http://[>x</a>'', [anchor ''http://['']),
      (''<a href=/a>1</a><a href=/a>2</a>'', [anchor ''/a'', anchor ''/a'']),
      (''<a href=/a>1</a><a href=https://other.example/y>2</a>'',
         [anchor ''/a'', anchor ''https://other.example/y'']),
      (''<a href=/a>1</a><a href=/b>2</a>'', [anchor ''/a'', anchor ''/b''])]"

text \<open>\<open>str(soup)\<close> of a document of \<open>img\<close> elements.\<close>

definition img_str :: "tag \<Rightarrow> string" where
  "img_str t = ''<img src='' @ [CHR 0x22] @ the (src t) @ [CHR 0x22] @ ''/>''"

definition web :: env where
  "web =
     \<lparr>urlparse = (\<lambda>u. case map_of web_urls u of
                         None \<Rightarrow> Inl (ValueError ''outside the example'')
                       | Some parsed \<Rightarrow> Inr parsed),
      urljoin = (\<lambda>base u. case map_of web_joins (base, u) of
                              None \<Rightarrow> Inl (ValueError ''outside the example'')
                            | Some r \<Rightarrow> r),
      robots_txt = (\<lambda>u. if u = ''https://offline.example/robots.txt''
                         then RobotsRaises ''Connection refused''
                         else RobotsHTTPError 404),
      time_time = 1000,
      page_get = (\<lambda>u attempt. case map_of web_pages u of
                                   None \<Rightarrow> GetRequestException ''500 Server Error''
                                 | Some content \<Rightarrow> GetOk content),
      render = (\<lambda>u. Inl (RuntimeError ''Playwright required for JS rendering but it is not installed.'')),
      asset_get = (\<lambda>u. if u = ''https://example.com/a.png'' then Inr [''PNG'', ''DATA'', [], ''rest'']
                        else Inl (RequestException ''404 Not Found'')),
      parse_html = (\<lambda>html. case map_of web_documents html of None \<Rightarrow> [] | Some soup \<Rightarrow> soup),
      soup_str = (\<lambda>soup. concat (map img_str soup))\<rparr>"

definition no_files :: world where
  "no_files = \<lparr>fs = Map.empty, gets = [], sleeps = []\<rparr>"

text \<open>\<open>Crawler(output_dir='out', max_depth=1, max_pages=n, concurrency=k,
  per_host_delay=delay, respect_robots=False, same_domain=sd)\<close> and \<open>crawl\<close> with its
  default arguments.\<close>

definition a_crawler :: "int \<Rightarrow> int \<Rightarrow> rat \<Rightarrow> bool \<Rightarrow> crawler" where
  "a_crawler n k delay sd =
     \<lparr>c_output_dir = ''out'', c_user_agent = None, max_depth = 1, max_pages = n,
      same_domain = sd, concurrency = k, per_host_delay = delay, c_respect_robots = False,
      include_patterns = [], exclude_patterns = [],
      arg_render_js = False, arg_save_assets = False, arg_rewrite_assets = True\<rparr>"

text \<open>A fetch in static mode from a host whose every answer is a server error.\<close>

definition busy_fetch :: "(exn + pypath) \<times> world" where
  "busy_fetch =
     fetch (Downloader ''out'' None False) web ''https://busy.example'' False False True None no_files"

text \<open>The schedule of a crawl in which the only worker runs from its start to its
  end, for a seed that is fetched at once and has links to discover.\<close>

definition seed_only_schedule :: "action list" where
  "seed_only_schedule =
     [Main, Main, Run 0, Run 0, Run 0, Run 0, Run 0, Run 0, Run 0, Run 0, Main, Main]"

text \<open>
  A schedule for a seed with two links: worker 0 handles the seed and appends both
  links while the main thread waits, the main thread submits both, and workers 1 and 2
  each pass the test of line 116 before either of them inserts its URL.
\<close>

definition race_schedule :: "action list" where
  "race_schedule =
     [Main, Main,
      Run 0, Run 0, Run 0, Run 0, Run 0, Run 0, Run 0, Run 0, Run 0, Run 0, Run 0, Run 0,
      Main, Main, Main, Main, Main,
      Run 1, Run 2, Run 1, Run 2, Run 1, Run 2,
      Run 1, Run 1, Run 1, Run 1, Run 2, Run 2, Run 2, Run 2, Main]"

text \<open>
  A crawl from the page with a link to \<open>example.com\<close> and a link to
  \<open>other.example\<close>: worker 0 handles the seed and appends both links, and the main
  thread submits them as workers 1 and 2.
\<close>

definition two_links_prefix :: "action list" where
  "two_links_prefix = [Main, Main] @ replicate 12 (Run 0) @ replicate 5 Main"

text \<open>Then worker 1 runs to its end, worker 2 runs until it returns, and the main
  thread returns.\<close>

definition two_links_schedule :: "action list" where
  "two_links_schedule = two_links_prefix @ replicate 7 (Run 1) @ replicate 3 (Run 2) @ [Main]"




text \<open>The state in which the threads of a crawl of the example web start, and the
  state after a schedule.\<close>

definition start_of :: "crawler \<Rightarrow> string \<Rightarrow> cstate" where
  "start_of c u = projr (crawl_start c web 1000 no_files u)"

definition state_after :: "crawler \<Rightarrow> string \<Rightarrow> action list \<Rightarrow> cstate" where
  "state_after c u sched = the (run c web (start_of c u) sched)"

section \<open>The retry loop\<close>

lemma static_fetch_from_spec:
  "static_fetch_from get attempt w = (r, w') \<Longrightarrow> attempt < 8 \<Longrightarrow>
   \<exists>n. attempt < n \<and> n \<le> 8 \<and>
       gets w' = gets w @ map (\<lambda>a. user_agents ! (a mod 4)) [attempt..<n] \<and>
       sleeps w' = sleeps w @ map (\<lambda>a. of_nat (wait_time a)) [attempt..<n - 1] \<and>
       fs w' = fs w \<and>
       (\<forall>a. attempt \<le> a \<and> a < n - 1 \<longrightarrow> is_request_exception (get a)) \<and>
       (case get (n - 1) of
          GetOk text \<Rightarrow> r = Inr text
        | GetRequestException m \<Rightarrow> n = 8 \<and> r = Inl (RequestException m)
        | GetOtherException m \<Rightarrow> r = Inl (OtherException m))"
proof (induction get attempt w arbitrary: r w' rule: static_fetch_from.induct)
  case (1 get attempt w)
  let ?w1 = "w\<lparr>gets := gets w @ [user_agents ! (attempt mod length user_agents)]\<rparr>"
  have len: "length user_agents = 4" by (simp add: user_agents_def)
  note unf = 1(2)[unfolded static_fetch_from.simps[of get attempt w]]
  show ?case
  proof (cases "get attempt")
    case (GetOk body)
    with unf 1(3) have "r = Inr body" "w' = ?w1" by (simp_all add: Let_def)
    then show ?thesis using GetOk 1(3) len
      by (intro exI[of _ "Suc attempt"]) auto
  next
    case (GetOtherException m)
    with unf 1(3) have "r = Inl (OtherException m)" "w' = ?w1" by (simp_all add: Let_def)
    then show ?thesis using GetOtherException 1(3) len
      by (intro exI[of _ "Suc attempt"]) auto
  next
    case (GetRequestException m)
    show ?thesis
    proof (cases "attempt = 7")
      case True
      with GetRequestException unf 1(3) have "r = Inl (RequestException m)" "w' = ?w1"
        by (simp_all add: Let_def)
      then show ?thesis using GetRequestException True len
        by (intro exI[of _ "8"]) auto
    next
      case False
      let ?w2 = "?w1\<lparr>sleeps := sleeps ?w1 @ [of_nat (wait_time attempt)]\<rparr>"
      from False 1(3) have lt: "attempt + 1 < 8" by simp
      from False GetRequestException unf 1(3)
      have rec: "static_fetch_from get (attempt + 1) ?w2 = (r, w')"
        by (simp add: Let_def)
      from 1(1)[OF _ refl GetRequestException False rec lt] 1(3)
      obtain n where n: "attempt + 1 < n" "n \<le> 8"
        "gets w' = gets ?w2 @ map (\<lambda>a. user_agents ! (a mod 4)) [attempt + 1..<n]"
        "sleeps w' = sleeps ?w2 @ map (\<lambda>a. of_nat (wait_time a)) [attempt + 1..<n - 1]"
        "fs w' = fs ?w2"
        "\<forall>a. attempt + 1 \<le> a \<and> a < n - 1 \<longrightarrow> is_request_exception (get a)"
        "(case get (n - 1) of
          GetOk text \<Rightarrow> r = Inr text
        | GetRequestException m \<Rightarrow> n = 8 \<and> r = Inl (RequestException m)
        | GetOtherException m \<Rightarrow> r = Inl (OtherException m))"
        by auto
      have up1: "[attempt..<n] = attempt # [attempt + 1..<n]"
        using n(1) by (simp add: upt_conv_Cons)
      have up2: "[attempt..<n - 1] = attempt # [attempt + 1..<n - 1]"
        using n(1) by (simp add: upt_conv_Cons)
      have all: "\<forall>a. attempt \<le> a \<and> a < n - 1 \<longrightarrow> is_request_exception (get a)"
      proof (intro allI impI)
        fix a assume a: "attempt \<le> a \<and> a < n - 1"
        show "is_request_exception (get a)"
        proof (cases "a = attempt")
          case True
          then show ?thesis using GetRequestException by (simp add: is_request_exception_def)
        next
          case False
          with a n(6) show ?thesis by simp
        qed
      qed
      show ?thesis
        using n all up1 up2 len
        by (intro exI[of _ n]) auto
    qed
  qed
qed


lemma download_asset_frame:
  "download_asset d e u w = (r, w') \<Longrightarrow> gets w' = gets w \<and> sleeps w' = sleeps w"
  by (auto simp: download_asset_def Let_def split: sum.splits bool.splits)

lemma save_and_replace_frame:
  "save_and_replace d e b a t orig w = (t', w') \<Longrightarrow> gets w' = gets w \<and> sleeps w' = sleeps w"
  by (auto simp: save_and_replace_def Let_def split: sum.splits prod.splits option.splits
           dest: download_asset_frame)

lemma rewrite_pass_frame:
  "rewrite_pass d e b sel ts w = (ts', w') \<Longrightarrow> gets w' = gets w \<and> sleeps w' = sleeps w"
proof (induction ts arbitrary: w ts' w')
  case Nil
  then show ?case by simp
next
  case (Cons t ts)
  obtain t1 w1 where h: "(case sel t of None \<Rightarrow> (t, w)
            | Some (a, orig_url) \<Rightarrow> save_and_replace d e b a t orig_url w) = (t1, w1)"
    by force
  then have f1: "gets w1 = gets w \<and> sleeps w1 = sleeps w"
    by (auto split: option.splits dest: save_and_replace_frame)
  obtain ts2 w2 where r: "rewrite_pass d e b sel ts w1 = (ts2, w2)" by force
  from Cons.IH[OF r] have f2: "gets w2 = gets w1 \<and> sleeps w2 = sleeps w1" .
  from Cons.prems h r have "w' = w2" by simp
  with f1 f2 show ?case by simp
qed

lemma rewrite_assets_and_save_frame:
  "rewrite_assets_and_save d e html b assets w = (c, w') \<Longrightarrow>
     gets w' = gets w \<and> sleeps w' = sleeps w"
  unfolding rewrite_assets_and_save_def Let_def
  by (auto split: prod.splits dest!: rewrite_pass_frame)

lemma download_assets_frame:
  "gets (download_assets d e as w) = gets w \<and>
   (\<exists>rest. sleeps (download_assets d e as w) = sleeps w @ rest)"
proof (induction as arbitrary: w)
  case Nil
  then show ?case by simp
next
  case (Cons a as)
  obtain r w1 where h: "download_asset d e a w = (r, w1)" by force
  from download_asset_frame[OF h] have f: "gets w1 = gets w" "sleeps w1 = sleeps w" by simp_all
  show ?case
  proof (cases r)
    case (Inl x)
    with h have "download_assets d e (a # as) w = download_assets d e as w1" by simp
    with Cons.IH[of w1] f show ?thesis by simp
  next
    case (Inr local)
    let ?w2 = "w1\<lparr>sleeps := sleeps w1 @ [rate_limit d]\<rparr>"
    from Inr h have "download_assets d e (a # as) w = download_assets d e as ?w2" by simp
    with Cons.IH[of ?w2] f show ?thesis by auto
  qed
qed

lemma download_assets_sleeps:
  "sleeps w = sl \<Longrightarrow> \<exists>rest. sleeps (download_assets d e as w) = sl @ rest"
  using download_assets_frame[of d e as w] by auto

text \<open>After the page was fetched, the rest of fetch leaves the GETs alone and only
  appends to the sleeps.\<close>

lemma fetch_unfold:
  "fetch d e url render_js sa ra cf w = (r, w') \<Longrightarrow>
   (\<exists>x. allowed_by_robots d e url = Inl x \<and> r = Inl x \<and> w' = w) \<or>
   (allowed_by_robots d e url = Inr False \<and> (\<exists>x. r = Inl x) \<and> w' = w) \<or>
   (allowed_by_robots d e url = Inr True \<and>
     (\<exists>x. fetch_content e url render_js w = (Inl x, w') \<and> r = Inl x)) \<or>
   (allowed_by_robots d e url = Inr True \<and>
     (\<exists>body w1 rest. fetch_content e url render_js w = (Inr body, w1) \<and>
        gets w' = gets w1 \<and> sleeps w' = sleeps w1 @ rest))"
  unfolding fetch_def Let_def
  by (auto split: sum.splits bool.splits prod.splits if_splits
        dest!: rewrite_assets_and_save_frame simp: download_assets_frame
        intro!: download_assets_sleeps)




subsection \<open>The rest of \<open>fetch\<close> leaves the GETs alone\<close>

lemma fetch_content_static:
  assumes "fetch_content e url False w = (r1, w1)"
  shows "\<exists>n. 0 < n \<and> n \<le> 8 \<and>
       gets w1 = gets w @ map (\<lambda>a. user_agents ! (a mod 4)) [0..<n] \<and>
       sleeps w1 = sleeps w @ map (\<lambda>a. of_nat (min (2 ^ a) 16)) [0..<n - 1] \<and>
       fs w1 = fs w \<and>
       (\<forall>a. a < n - 1 \<longrightarrow> is_request_exception (page_get e url a)) \<and>
       (case page_get e url (n - 1) of
          GetOk body \<Rightarrow> r1 = Inr body
        | GetRequestException m \<Rightarrow> n = 8 \<and> r1 = Inl (RequestException m)
        | GetOtherException m \<Rightarrow> r1 = Inl (OtherException m))"
proof -
  from assms have "static_fetch_from (page_get e url) 0 w = (r1, w1)"
    by (simp add: fetch_content_def static_fetch_def)
  from static_fetch_from_spec[OF this] show ?thesis
    unfolding wait_time_def by simp
qed


lemma fetch_cases:
  assumes "fetch d e url False sa ra cf w = (r, w')"
  obtains (raised) "w' = w" "\<exists>x. r = Inl x" "allowed_by_robots d e url \<noteq> Inr True"
    | (failed) x where "fetch_content e url False w = (Inl x, w')" "r = Inl x"
        "allowed_by_robots d e url = Inr True"
    | (got) body w1 rest where "fetch_content e url False w = (Inr body, w1)"
        "gets w' = gets w1" "sleeps w' = sleeps w1 @ rest"
        "allowed_by_robots d e url = Inr True"
proof -
  from fetch_unfold[OF assms]
  consider
      (a) x where "allowed_by_robots d e url = Inl x" "r = Inl x" "w' = w"
    | (b) "allowed_by_robots d e url = Inr False" "\<exists>x. r = Inl x" "w' = w"
    | (c) x where "allowed_by_robots d e url = Inr True"
          "fetch_content e url False w = (Inl x, w')" "r = Inl x"
    | (d) body w1 rest where "allowed_by_robots d e url = Inr True"
          "fetch_content e url False w = (Inr body, w1)"
          "gets w' = gets w1" "sleeps w' = sleeps w1 @ rest"
    by (elim disjE exE conjE) blast+
  then show thesis
  proof cases
    case a
    then show ?thesis by (intro raised) simp_all
  next
    case b
    then show ?thesis by (intro raised) simp_all
  next
    case c
    then show ?thesis by (intro failed)
  next
    case d
    then show ?thesis by (intro got)
  qed
qed

text \<open>
  Claim C5. In static mode \<open>fetch\<close> issues \<open>n\<close> GETs, at most 8, with the user
  agents in rotation, and at least one when robots allows the URL. Every attempt but the
  last ended in a \<open>requests\<close> exception and was followed by a sleep of
  \<open>min(2^a, 16)\<close> seconds and by the next attempt. An attempt that ends in such an
  exception is the last one only if it is the 8th: then \<open>fetch\<close> raises that
  exception, sleeps no more and writes no file. When \<open>fetch\<close> returns a path, its last
  GET returned the content.
\<close>

theorem fetch_static_retries:
  assumes "fetch d e url False save_assets rewrite_assets custom_filename w = (r, w')"
  shows "\<exists>n rest. n \<le> 8 \<and>
           (0 < n \<longleftrightarrow> allowed_by_robots d e url = Inr True) \<and>
           gets w' = gets w @ map (\<lambda>a. user_agents ! (a mod 4)) [0..<n] \<and>
           sleeps w' = sleeps w @ map (\<lambda>a. of_nat (min (2 ^ a) 16)) [0..<n - 1] @ rest \<and>
           (\<forall>a. a < n - 1 \<longrightarrow> is_request_exception (page_get e url a)) \<and>
           (0 < n \<and> is_request_exception (page_get e url (n - 1)) \<longrightarrow>
              n = 8 \<and>
              (\<exists>m. page_get e url 7 = GetRequestException m \<and> r = Inl (RequestException m)) \<and>
              rest = [] \<and> fs w' = fs w) \<and>
           (\<forall>p. r = Inr p \<longrightarrow> 0 < n \<and> (\<exists>body. page_get e url (n - 1) = GetOk body))"
  using assms
proof (cases rule: fetch_cases)
  case raised
  have "[0..<0 - 1] = ([]::nat list)" by simp
  with raised show ?thesis
    apply (intro exI[of _ 0] exI[of _ "[]"])
    apply (intro conjI)
          apply simp
         apply simp
        apply simp
       apply simp
      apply simp
     apply simp
    apply blast
    done
next
  case (failed x)
  let ?get = "page_get e url"
  define P where "P n \<longleftrightarrow> 0 < n \<and> n \<le> 8 \<and>
       gets w' = gets w @ map (\<lambda>a. user_agents ! (a mod 4)) [0..<n] \<and>
       sleeps w' = sleeps w @ map (\<lambda>a. of_nat (min (2 ^ a) 16)) [0..<n - 1] \<and>
       fs w' = fs w \<and>
       (\<forall>a. a < n - 1 \<longrightarrow> is_request_exception (?get a)) \<and>
       (case ?get (n - 1) of
          GetOk body \<Rightarrow> (Inl x :: exn + string) = Inr body
        | GetRequestException m \<Rightarrow> n = 8 \<and> (Inl x :: exn + string) = Inl (RequestException m)
        | GetOtherException m \<Rightarrow> (Inl x :: exn + string) = Inl (OtherException m))" for n
  from fetch_content_static[OF failed(1)] have "\<exists>n. P n" unfolding P_def .
  then obtain n where "P n" ..
  then have n: "0 < n" "n \<le> 8"
       "gets w' = gets w @ map (\<lambda>a. user_agents ! (a mod 4)) [0..<n]"
       "sleeps w' = sleeps w @ map (\<lambda>a. of_nat (min (2 ^ a) 16)) [0..<n - 1]"
       "fs w' = fs w"
       "\<forall>a. a < n - 1 \<longrightarrow> is_request_exception (?get a)"
       "(case ?get (n - 1) of
          GetOk body \<Rightarrow> (Inl x :: exn + string) = Inr body
        | GetRequestException m \<Rightarrow> n = 8 \<and> (Inl x :: exn + string) = Inl (RequestException m)
        | GetOtherException m \<Rightarrow> (Inl x :: exn + string) = Inl (OtherException m))"
    unfolding P_def by simp_all
  have last: "n = 8 \<and> (\<exists>m. ?get 7 = GetRequestException m \<and> r = Inl (RequestException m))"
    if "is_request_exception (?get (n - 1))"
  proof (cases "?get (n - 1)")
    case (GetRequestException m)
    with n(7) have e: "n = 8" "x = RequestException m" by simp_all
    with GetRequestException failed(2) show ?thesis by simp
  next
    case (GetOk body)
    with that show ?thesis by (simp add: is_request_exception_def)
  next
    case (GetOtherException m)
    with that show ?thesis by (simp add: is_request_exception_def)
  qed
  show ?thesis
    apply (intro exI[of _ n] exI[of _ "[]"] conjI)
          apply (rule n(2))
         apply (simp add: n(1) failed(3))
        apply (rule n(3))
       apply (simp add: n(4))
      apply (rule n(6))
     apply (use last n(5) in blast)
    apply (simp add: failed(2))
    done
next
  case (got body w1 rest)
  let ?get = "page_get e url"
  define P where "P n \<longleftrightarrow> 0 < n \<and> n \<le> 8 \<and>
       gets w1 = gets w @ map (\<lambda>a. user_agents ! (a mod 4)) [0..<n] \<and>
       sleeps w1 = sleeps w @ map (\<lambda>a. of_nat (min (2 ^ a) 16)) [0..<n - 1] \<and>
       fs w1 = fs w \<and>
       (\<forall>a. a < n - 1 \<longrightarrow> is_request_exception (?get a)) \<and>
       (case ?get (n - 1) of
          GetOk body' \<Rightarrow> (Inr body :: exn + string) = Inr body'
        | GetRequestException m \<Rightarrow> n = 8 \<and> Inr body = Inl (RequestException m)
        | GetOtherException m \<Rightarrow> Inr body = Inl (OtherException m))" for n
  from fetch_content_static[OF got(1)] have "\<exists>n. P n" unfolding P_def .
  then obtain n where "P n" ..
  then have n: "0 < n" "n \<le> 8"
       "gets w1 = gets w @ map (\<lambda>a. user_agents ! (a mod 4)) [0..<n]"
       "sleeps w1 = sleeps w @ map (\<lambda>a. of_nat (min (2 ^ a) 16)) [0..<n - 1]"
       "\<forall>a. a < n - 1 \<longrightarrow> is_request_exception (?get a)"
       "(case ?get (n - 1) of
          GetOk body' \<Rightarrow> (Inr body :: exn + string) = Inr body'
        | GetRequestException m \<Rightarrow> n = 8 \<and> Inr body = Inl (RequestException m)
        | GetOtherException m \<Rightarrow> Inr body = Inl (OtherException m))"
    unfolding P_def by simp_all
  from n(6) have ok: "?get (n - 1) = GetOk body"
    by (cases "?get (n - 1)") simp_all
  have no: "\<not> is_request_exception (?get (n - 1))"
    using ok by (simp add: is_request_exception_def)
  show ?thesis
    apply (intro exI[of _ n] exI[of _ rest] conjI)
          apply (rule n(2))
         apply (simp add: n(1) got(4))
        apply (simp add: got(2) n(3))
       apply (simp add: got(3) n(4))
      apply (rule n(5))
     apply (use no in blast)
    apply (use ok n(1) in blast)
    done
qed

theorem fetch_static_retries_witness:
  "fetch (Downloader ''out'' None False) web ''https://busy.example'' False False True None no_files =
     (fst busy_fetch, snd busy_fetch) \<and>
   fst busy_fetch = Inl (RequestException ''500 Server Error'') \<and>
   length (gets (snd busy_fetch)) = 8 \<and>
   sleeps (snd busy_fetch) = [1, 2, 4, 8, 16, 16, 16] \<and>
   (\<exists>n rest. n \<le> 8 \<and>
      (0 < n \<longleftrightarrow>
         allowed_by_robots (Downloader ''out'' None False) web ''https://busy.example'' = Inr True) \<and>
      gets (snd busy_fetch) = gets no_files @ map (\<lambda>a. user_agents ! (a mod 4)) [0..<n] \<and>
      sleeps (snd busy_fetch) =
        sleeps no_files @ map (\<lambda>a. of_nat (min (2 ^ a) 16)) [0..<n - 1] @ rest \<and>
      (\<forall>a. a < n - 1 \<longrightarrow> is_request_exception (page_get web ''https://busy.example'' a)) \<and>
      (0 < n \<and> is_request_exception (page_get web ''https://busy.example'' (n - 1)) \<longrightarrow>
         n = 8 \<and>
         (\<exists>m. page_get web ''https://busy.example'' 7 = GetRequestException m \<and>
              fst busy_fetch = Inl (RequestException m)) \<and>
         rest = [] \<and> fs (snd busy_fetch) = fs no_files) \<and>
      (\<forall>p. fst busy_fetch = Inr p \<longrightarrow>
           0 < n \<and> (\<exists>body. page_get web ''https://busy.example'' (n - 1) = GetOk body)))"
proof -
  have run: "fetch (Downloader ''out'' None False) web ''https://busy.example'' False False True None
       no_files = (fst busy_fetch, snd busy_fetch)"
    by (simp add: busy_fetch_def)
  have r: "fst busy_fetch = Inl (RequestException ''500 Server Error'')" by code_simp
  have g: "length (gets (snd busy_fetch)) = 8" by code_simp
  have sl: "sleeps (snd busy_fetch) = [1, 2, 4, 8, 16, 16, 16]" by code_simp
  note c = fetch_static_retries[OF run]
  show ?thesis by (rule conjI[OF run conjI[OF r conjI[OF g conjI[OF sl c]]]])
qed

section \<open>The robots gate when \<open>robots.txt\<close> cannot be fetched\<close>

text \<open>
  Claim C2, as the code has it. When \<open>respect_robots\<close> is set and fetching
  \<open>robots.txt\<close> raises, \<open>allowed_by_robots\<close> returns \<open>False\<close>: the parser was
  never read, and \<open>can_fetch\<close> denies every URL until a \<open>robots.txt\<close> was read.
\<close>

theorem robots_unfetched_denies:
  assumes "respect_robots d"
    and "urlparse e url = Inr parsed"
    and "urljoin e (scheme parsed @ ''://'' @ netloc parsed) ''/robots.txt'' = Inr robots_url"
    and "robots_txt e robots_url = RobotsRaises m"
  shows "allowed_by_robots d e url = Inr False"
  using assms
  by (simp add: allowed_by_robots_def get_robots_parser_def read_def can_fetch_def
      RobotFileParser_def Let_def)

theorem robots_unfetched_denies_witness:
  "respect_robots (Downloader ''out'' None True) \<and>
   urlparse web ''https://offline.example'' =
     Inr \<lparr>scheme = ''https'', netloc = ''offline.example'', path = []\<rparr> \<and>
   urljoin web (scheme \<lparr>scheme = ''https'', netloc = ''offline.example'', path = []\<rparr> @ ''://'' @
                netloc \<lparr>scheme = ''https'', netloc = ''offline.example'', path = []\<rparr>)
     ''/robots.txt'' = Inr ''https://offline.example/robots.txt'' \<and>
   robots_txt web ''https://offline.example/robots.txt'' = RobotsRaises ''Connection refused'' \<and>
   allowed_by_robots (Downloader ''out'' None True) web ''https://offline.example'' = Inr False"
proof -
  have h1: "respect_robots (Downloader ''out'' None True)" by code_simp
  have h2: "urlparse web ''https://offline.example'' =
     Inr \<lparr>scheme = ''https'', netloc = ''offline.example'', path = []\<rparr>" by code_simp
  have h3: "urljoin web (scheme \<lparr>scheme = ''https'', netloc = ''offline.example'', path = []\<rparr> @
                ''://'' @ netloc \<lparr>scheme = ''https'', netloc = ''offline.example'', path = []\<rparr>)
     ''/robots.txt'' = Inr ''https://offline.example/robots.txt''" by code_simp
  have h4: "robots_txt web ''https://offline.example/robots.txt'' = RobotsRaises ''Connection refused''"
    by (simp add: web_def)
  from h1 h2 h3 h4 robots_unfetched_denies[OF h1 h2 h3 h4] show ?thesis by blast
qed

text \<open>The claim as it is written fails: fetching the \<open>robots.txt\<close> of
  \<open>offline.example\<close> raises, and the gate does not allow the request.\<close>

theorem robots_fail_open_counterexample:
  "(case robots_txt web ''https://offline.example/robots.txt'' of
      RobotsRaises m \<Rightarrow> True | _ \<Rightarrow> False) \<and>
   allowed_by_robots (Downloader ''out'' None True) web ''https://offline.example'' \<noteq> Inr True"
  by code_simp

section \<open>The name of the saved page\<close>

text \<open>
  Claim C6, at the URL \<open>https://example.com/v1.2/docs\<close> without a custom filename.
  The page is saved as \<open>out/example.com_v1.2/docs\<close>: the name \<open>docs\<close> has no
  extension and \<open>.html\<close> is not appended, since the test of the code is a dot
  anywhere in the stripped path.
\<close>

theorem page_filename_dot_in_directory:
  "page_filename (Downloader ''out'' None True) web ''https://example.com/v1.2/docs'' None =
     Inr (Path False [''out'', ''example.com_v1.2'', ''docs'']) \<and>
   path_str (Path False [''out'', ''example.com_v1.2'', ''docs'']) = ''out/example.com_v1.2/docs'' \<and>
   path_suffix (Path False [''out'', ''example.com_v1.2'', ''docs'']) = []"
  by code_simp

section \<open>Rewriting the asset references\<close>

text \<open>
  Claim C1, at a page with one \<open>img\<close> element, \<open>save_assets\<close> and
  \<open>rewrite_assets\<close>. The asset is written to \<open>out/assets/example.com/a.png\<close>, and
  \<open>_rewrite_assets_and_save\<close> returns the markup with the local path; the page file
  holds the markup as it was fetched, with the original reference.
\<close>

theorem fetch_saves_page_before_rewriting:
  "(case fetch (Downloader ''out'' None True) web ''https://example.com/img'' False True True None
          no_files of
      (r, w) \<Rightarrow>
        r = Inr (Path False [''out'', ''example.com_img.html'']) \<and>
        fs w ''out/assets/example.com/a.png'' = Some ''PNGDATA'' \<and>
        fs w ''out/example.com_img.html'' = Some ''<img src=/a.png>'') \<and>
   fst (rewrite_assets_and_save (Downloader ''out'' None True) web ''<img src=/a.png>''
          ''https://example.com/img'' [''https://example.com/a.png''] no_files) =
     ''<img src='' @ [CHR 0x22] @ ''assets/example.com/a.png'' @ [CHR 0x22] @ ''/>''"
  by code_simp

section \<open>Crawls that return too many results\<close>

text \<open>
  Claim C3, at \<open>max_pages = 1\<close>, one worker thread and a seed whose page has the link
  \<open>http://[\<close>. The seed is fetched and its result appended; \<open>urljoin\<close> then raises
  inside the same \<open>try\<close>, and the handler appends a second result. \<open>crawl\<close>
  returns two results.
\<close>

theorem crawl_returns_more_than_max_pages:
  "crawl (a_crawler 1 1 (1 / 2) True) web 1000 no_files ''https://example.com/bad''
     seed_only_schedule =
     Some (Inr [\<lparr>cr_url = ''https://example.com/bad'',
                 cr_saved_path = Some ''out/example.com_bad.html'', cr_error = None\<rparr>,
                \<lparr>cr_url = ''https://example.com/bad'', cr_saved_path = None,
                 cr_error = Some ''Invalid IPv6 URL''\<rparr>]) \<and>
   max_pages (a_crawler 1 1 (1 / 2) True) = 1"
  by code_simp

text \<open>
  Claim C4, at a seed whose page has the same link twice, with two worker threads.
  Both links are appended to the queue and submitted; under \<open>race_schedule\<close> both
  workers find the URL unvisited before either inserts it, and both fetch it.
  \<open>crawl\<close> returns two results for \<open>https://example.com/a\<close>.
\<close>

theorem crawl_visits_url_twice:
  "crawl (a_crawler 10 2 0 True) web 1000 no_files ''https://example.com/dup'' race_schedule =
     Some (Inr [\<lparr>cr_url = ''https://example.com/dup'',
                 cr_saved_path = Some ''out/example.com_dup.html'', cr_error = None\<rparr>,
                \<lparr>cr_url = ''https://example.com/a'',
                 cr_saved_path = Some ''out/example.com_a.html'', cr_error = None\<rparr>,
                \<lparr>cr_url = ''https://example.com/a'',
                 cr_saved_path = Some ''out/example.com_a.html'', cr_error = None\<rparr>])"
  by code_simp

section \<open>What a step does\<close>

lemma worker_step_effect:
  assumes "worker_step c e i s = Some s'"
  shows "\<exists>p. futures s' = (futures s)[i := (futures s ! i)\<lparr>pc := p\<rparr>] \<and>
             (checked p \<longrightarrow> checked (pc (futures s ! i)) \<or>
                host_ok c e (start_host s) (w_url (futures s ! i)))"
    and "start_host s' = start_host s"
    and "main_pc s' = main_pc s"
    and "results s' = results s \<or>
         (\<exists>r. results s' = results s @ [r] \<and> cr_url r = w_url (futures s ! i) \<and>
              checked (pc (futures s ! i)))"
    and "fetched s' = fetched s \<or>
         (fetched s' = fetched s @ [w_url (futures s ! i)] \<and> checked (pc (futures s ! i)))"
    and "queue s' = queue s \<or> (\<exists>l. queue s' = queue s @ [(l, w_depth (futures s ! i) + 1)])"
  using assms
  unfolding worker_step_def Let_def
  by (cases "pc (futures s ! i)";
      auto simp: set_pc_def append_result_def host_ok_def
           split: if_splits sum.splits prod.splits bool.splits list.splits)+

lemma main_step_effect:
  assumes "main_step c s = Some s'"
  shows "start_host s' = start_host s"
    and "results s' = results s"
    and "fetched s' = fetched s"
    and "(futures s' = futures s \<and> queue s' = queue s) \<or>
         (\<exists>u d. queue s = (u, d) # queue s' \<and>
                futures s' = futures s @ [\<lparr>w_url = u, w_depth = d, pc = Submitted\<rparr>])"
  using assms
  unfolding main_step_def
  by (cases "main_pc s"; auto split: if_splits list.splits)+

section \<open>The restriction to the domain of the seed\<close>

lemma inv_hosts_worker_step:
  assumes inv: "inv_hosts c e s" and st: "worker_step c e i s = Some s'" and i: "i < length (futures s)"
  shows "inv_hosts c e s'"
proof -
  let ?w = "futures s ! i"
  from i have mem: "?w \<in> set (futures s)" by simp
  from worker_step_effect(1)[OF st] obtain p where
    fut: "futures s' = (futures s)[i := ?w\<lparr>pc := p\<rparr>]" and
    chk: "checked p \<longrightarrow> checked (pc ?w) \<or> host_ok c e (start_host s) (w_url ?w)"
    by blast
  note sh = worker_step_effect(2)[OF st]
  note res = worker_step_effect(4)[OF st]
  note fet = worker_step_effect(5)[OF st]
  from inv mem have old: "checked (pc ?w) \<Longrightarrow> host_ok c e (start_host s) (w_url ?w)"
    by (simp add: inv_hosts_def)
  have a: "host_ok c e (start_host s') (w_url w)" if "w \<in> set (futures s')" "checked (pc w)" for w
  proof -
    from that(1) fut have "w = ?w\<lparr>pc := p\<rparr> \<or> w \<in> set (futures s)"
      using set_update_subset_insert[of "futures s" i "?w\<lparr>pc := p\<rparr>"] by auto
    then show ?thesis
    proof
      assume "w = ?w\<lparr>pc := p\<rparr>"
      with that(2) chk old sh show ?thesis by auto
    next
      assume "w \<in> set (futures s)"
      with inv that(2) sh show ?thesis by (simp add: inv_hosts_def)
    qed
  qed
  have b: "host_ok c e (start_host s') (cr_url r)" if "r \<in> set (results s')" for r
    using res that inv old sh by (auto simp: inv_hosts_def)
  have d: "host_ok c e (start_host s') u" if "u \<in> set (fetched s')" for u
    using fet that inv old sh by (auto simp: inv_hosts_def)
  from a b d show ?thesis by (simp add: inv_hosts_def)
qed

lemma inv_hosts_main_step:
  assumes inv: "inv_hosts c e s" and st: "main_step c s = Some s'"
  shows "inv_hosts c e s'"
  using inv main_step_effect[OF st]
  by (auto simp: inv_hosts_def)

lemma step_start_host: "step c e s act = Some s' \<Longrightarrow> start_host s' = start_host s"
  by (cases act) (auto simp: step_def dest: worker_step_effect(2) main_step_effect(1) split: if_splits)

lemma inv_hosts_step:
  assumes "inv_hosts c e s" and "step c e s act = Some s'"
  shows "inv_hosts c e s'"
proof (cases act)
  case Main
  with assms show ?thesis by (simp add: step_def inv_hosts_main_step)
next
  case (Run i)
  with assms show ?thesis
    by (auto simp: step_def split: if_splits intro: inv_hosts_worker_step)
next
  case (Tick d)
  with assms show ?thesis by (auto simp: step_def inv_hosts_def split: if_splits)
qed

lemma inv_hosts_run:
  "inv_hosts c e s \<Longrightarrow> run c e s sched = Some s' \<Longrightarrow>
     inv_hosts c e s' \<and> start_host s' = start_host s"
proof (induction sched arbitrary: s)
  case Nil
  then show ?case by simp
next
  case (Cons act sched)
  from Cons.prems(2) obtain s1 where s1: "step c e s act = Some s1" "run c e s1 sched = Some s'"
    by (auto split: option.splits)
  from inv_hosts_step[OF Cons.prems(1) s1(1)] have "inv_hosts c e s1" .
  from Cons.IH[OF this s1(2)] step_start_host[OF s1(1)] show ?case by simp
qed

lemma crawl_start_state:
  assumes "crawl_start c e t0 w0 start_url = Inr s0"
  shows "\<exists>parsed. urlparse e (normalize_start_url start_url) = Inr parsed \<and>
           start_host s0 = netloc parsed"
    and "queue s0 = [(normalize_start_url start_url, 0)]"
    and "futures s0 = []" and "results s0 = []" and "fetched s0 = []" and "stamps s0 = []"
    and "lock s0 = None" and "host_last s0 = Map.empty" and "clock s0 = t0"
    and "0 < concurrency c"
  using assms
  by (auto simp: crawl_start_def Let_def split: sum.splits if_splits)

text \<open>
  Claim C7. In a crawl with \<open>same_domain\<close>, under every schedule and at every
  moment, each result has a URL whose host is the host of the seed, and
  \<open>downloader.fetch\<close> was called only for such URLs: a URL of another host gets no
  result, neither a success nor an error. The list that \<open>crawl\<close> returns is the list
  of results when the main thread returns.
\<close>

theorem crawl_same_domain:
  assumes "same_domain c"
    and "crawl_start c e t0 w0 start_url = Inr s0"
    and "run c e s0 sched = Some s"
  shows "\<exists>seed. urlparse e (normalize_start_url start_url) = Inr seed \<and>
           (\<forall>r \<in> set (results s). \<exists>parsed. urlparse e (cr_url r) = Inr parsed \<and>
                                          netloc parsed = netloc seed) \<and>
           (\<forall>u \<in> set (fetched s). \<exists>parsed. urlparse e u = Inr parsed \<and>
                                          netloc parsed = netloc seed) \<and>
           (main_pc s = M_return \<longrightarrow>
              crawl c e t0 w0 start_url sched = Some (Inr (results s)))"
proof -
  from crawl_start_state(1)[OF assms(2)] obtain seed where
    seed: "urlparse e (normalize_start_url start_url) = Inr seed" "start_host s0 = netloc seed"
    by blast
  have "inv_hosts c e s0"
    using crawl_start_state[OF assms(2)] by (simp add: inv_hosts_def)
  from inv_hosts_run[OF this assms(3)] have inv: "inv_hosts c e s" "start_host s = start_host s0"
    by simp_all
  have "\<exists>parsed. urlparse e u = Inr parsed \<and> netloc parsed = netloc seed"
    if "host_ok c e (start_host s) u" for u
    using that assms(1) inv(2) seed(2) by (auto simp: host_ok_def split: sum.splits)
  moreover have "crawl c e t0 w0 start_url sched = Some (Inr (results s))" if "main_pc s = M_return"
    using that assms(2,3) by (simp add: crawl_def)
  ultimately show ?thesis using inv(1) seed(1) by (auto simp: inv_hosts_def)
qed

section \<open>The start URL\<close>

lemma strip_where_spec:
  "\<exists>l r. s = l @ strip_where P s @ r \<and> (\<forall>c \<in> set l. P c) \<and> (\<forall>c \<in> set r. P c) \<and>
         (strip_where P s = [] \<or> (\<not> P (hd (strip_where P s)) \<and> \<not> P (last (strip_where P s))))"
proof -
  let ?m = "dropWhile P s"
  let ?t = "strip_where P s"
  let ?r = "rev (takeWhile P (rev ?m))"
  have t: "?t = rev (dropWhile P (rev ?m))" by (simp add: strip_where_def)
  have "rev (takeWhile P (rev ?m) @ dropWhile P (rev ?m)) = rev (rev ?m)"
    by (simp only: takeWhile_dropWhile_id)
  then have "rev (dropWhile P (rev ?m)) @ ?r = ?m"
    by (simp only: rev_append rev_rev_ident)
  then have m: "?m = ?t @ ?r" by (simp only: t)
  have s: "s = takeWhile P s @ ?t @ ?r"
    using takeWhile_dropWhile_id[of P s] m by simp
  have l: "\<forall>c \<in> set (takeWhile P s). P c" by (auto dest: set_takeWhileD)
  have r: "\<forall>c \<in> set ?r. P c" by (auto dest: set_takeWhileD)
  have ends: "\<not> P (hd ?t) \<and> \<not> P (last ?t)" if ne: "?t \<noteq> []"
  proof
    have mne: "?m \<noteq> []"
    proof
      assume "?m = []"
      with m have "?t @ ?r = []" by (simp only:)
      with ne show False by simp
    qed
    then have "\<not> P (hd ?m)" by (rule hd_dropWhile)
    moreover from ne m have "hd ?m = hd ?t" by (metis hd_append2)
    ultimately show "\<not> P (hd ?t)" by simp
    from ne t have ne': "dropWhile P (rev ?m) \<noteq> []" by simp
    then have "\<not> P (hd (dropWhile P (rev ?m)))" by (rule hd_dropWhile)
    moreover from ne' have "last ?t = hd (dropWhile P (rev ?m))"
      unfolding t by (simp add: last_rev)
    ultimately show "\<not> P (last ?t)" by simp
  qed
  from s l r ends show ?thesis by blast
qed

lemma inv_seed_step:
  assumes inv: "inv_seed seed s" and st: "step c e s act = Some s'"
  shows "inv_seed seed s'"
proof (cases act)
  case Main
  with st have m: "main_step c s = Some s'" by (simp add: step_def)
  from main_step_effect(4)[OF m] inv show ?thesis
    by (auto simp: inv_seed_def)
next
  case (Run i)
  with st have i: "i < length (futures s)" and w: "worker_step c e i s = Some s'"
    by (auto simp: step_def split: if_splits)
  let ?w = "futures s ! i"
  from worker_step_effect(1)[OF w] obtain p where
    fut: "futures s' = (futures s)[i := ?w\<lparr>pc := p\<rparr>]" by blast
  have a: "w_url w = seed" if "w \<in> set (futures s')" "w_depth w = 0" for w
  proof -
    from that(1) fut have "w = ?w\<lparr>pc := p\<rparr> \<or> w \<in> set (futures s)"
      using set_update_subset_insert[of "futures s" i "?w\<lparr>pc := p\<rparr>"] by auto
    with that(2) inv i show ?thesis by (auto simp: inv_seed_def)
  qed
  have b: "u = seed" if "(u, 0) \<in> set (queue s')" for u
    using worker_step_effect(6)[OF w] that inv by (auto simp: inv_seed_def)
  from a b show ?thesis by (simp add: inv_seed_def)
next
  case (Tick d)
  with assms show ?thesis by (auto simp: step_def inv_seed_def split: if_splits)
qed

lemma inv_seed_run:
  "inv_seed seed s \<Longrightarrow> run c e s sched = Some s' \<Longrightarrow> inv_seed seed s'"
proof (induction sched arbitrary: s)
  case Nil
  then show ?case by simp
next
  case (Cons act sched)
  from Cons.prems(2) obtain s1 where s1: "step c e s act = Some s1" "run c e s1 sched = Some s'"
    by (auto split: option.splits)
  from Cons.IH[OF inv_seed_step[OF Cons.prems(1) s1(1)] s1(2)] show ?case .
qed

text \<open>
  Claim C10. The start URL is \<open>l @ stripped @ r\<close> with \<open>l\<close> and \<open>r\<close> white space
  and \<open>stripped\<close> without white space at its ends; the seed is \<open>stripped\<close>, with
  \<open>https://\<close> in front unless it starts with \<open>http://\<close> or \<open>https://\<close>. The queue
  starts with the seed at depth 0, the host of the seed is the start host, and under
  every schedule a worker of depth 0 has the seed as its URL and appends results only
  for the seed.
\<close>

theorem crawl_normalizes_start_url:
  assumes "crawl_start c e t0 w0 start_url = Inr s0"
  shows "\<exists>l r stripped seed.
           start_url = l @ stripped @ r \<and>
           (\<forall>ch \<in> set l. py_isspace ch) \<and> (\<forall>ch \<in> set r. py_isspace ch) \<and>
           (stripped = [] \<or> (\<not> py_isspace (hd stripped) \<and> \<not> py_isspace (last stripped))) \<and>
           seed = (if startswith stripped ''http://'' \<or> startswith stripped ''https://''
                   then stripped else ''https://'' @ stripped) \<and>
           queue s0 = [(seed, 0)] \<and>
           (\<exists>parsed. urlparse e seed = Inr parsed \<and> start_host s0 = netloc parsed) \<and>
           (\<forall>sched s i. run c e s0 sched = Some s \<and> i < length (futures s) \<and>
                w_depth (futures s ! i) = 0 \<longrightarrow>
                w_url (futures s ! i) = seed \<and>
                (\<forall>s'. step c e s (Run i) = Some s' \<longrightarrow>
                     results s' = results s \<or>
                     (\<exists>res. results s' = results s @ [res] \<and> cr_url res = seed)))"
proof -
  let ?seed = "normalize_start_url start_url"
  from strip_where_spec[of start_url py_isspace] obtain l r where
    lr: "start_url = l @ py_strip start_url @ r" "\<forall>ch \<in> set l. py_isspace ch"
        "\<forall>ch \<in> set r. py_isspace ch"
        "py_strip start_url = [] \<or>
           (\<not> py_isspace (hd (py_strip start_url)) \<and> \<not> py_isspace (last (py_strip start_url)))"
    unfolding py_strip_def by blast
  have seed: "?seed = (if startswith (py_strip start_url) ''http://'' \<or>
                          startswith (py_strip start_url) ''https://''
                       then py_strip start_url else ''https://'' @ py_strip start_url)"
    by (simp add: normalize_start_url_def Let_def)
  note st = crawl_start_state[OF assms]
  have inv0: "inv_seed ?seed s0" using st by (simp add: inv_seed_def)
  have reach: "w_url (futures s ! i) = ?seed \<and>
                (\<forall>s'. step c e s (Run i) = Some s' \<longrightarrow>
                     results s' = results s \<or>
                     (\<exists>res. results s' = results s @ [res] \<and> cr_url res = ?seed))"
    if "run c e s0 sched = Some s" "i < length (futures s)" "w_depth (futures s ! i) = 0"
    for sched s i
  proof -
    from inv_seed_run[OF inv0 that(1)] that(2,3) have u: "w_url (futures s ! i) = ?seed"
      by (simp add: inv_seed_def)
    have "results s' = results s \<or>
          (\<exists>res. results s' = results s @ [res] \<and> cr_url res = ?seed)"
      if "step c e s (Run i) = Some s'" for s'
    proof -
      from that have "worker_step c e i s = Some s'" by (auto simp: step_def split: if_splits)
      from worker_step_effect(4)[OF this] u show ?thesis by auto
    qed
    with u show ?thesis by blast
  qed
  show ?thesis
    apply (rule exI[of _ l], rule exI[of _ r], rule exI[of _ "py_strip start_url"],
           rule exI[of _ ?seed])
    apply (intro conjI)
           apply (rule lr(1))
          apply (rule lr(2))
         apply (rule lr(3))
        apply (rule lr(4))
       apply (rule seed)
      apply (rule st(2))
     apply (rule st(1))
    apply (use reach in blast)
    done
qed

section \<open>The lock and the delay between requests to a host\<close>













section \<open>Runs of the example crawls\<close>

lemma start_ofI:
  "(case crawl_start c web 1000 no_files u of Inl x \<Rightarrow> False | Inr s \<Rightarrow> True) \<Longrightarrow>
   crawl_start c web 1000 no_files u = Inr (start_of c u)"
  by (cases "crawl_start c web 1000 no_files u") (simp_all add: start_of_def)

lemma state_afterI:
  "(case run c web (start_of c u) sched of None \<Rightarrow> False | Some s \<Rightarrow> True) \<Longrightarrow>
   run c web (start_of c u) sched = Some (state_after c u sched)"
  by (cases "run c web (start_of c u) sched") (simp_all add: state_after_def)

theorem crawl_same_domain_witness:
  "same_domain (a_crawler 10 2 0 True) \<and>
   crawl_start (a_crawler 10 2 0 True) web 1000 no_files ''https://example.com/two'' =
     Inr (start_of (a_crawler 10 2 0 True) ''https://example.com/two'') \<and>
   run (a_crawler 10 2 0 True) web (start_of (a_crawler 10 2 0 True) ''https://example.com/two'')
     two_links_schedule =
     Some (state_after (a_crawler 10 2 0 True) ''https://example.com/two'' two_links_schedule) \<and>
   map cr_url (results (state_after (a_crawler 10 2 0 True) ''https://example.com/two''
                          two_links_schedule)) =
     [''https://example.com/two'', ''https://example.com/a''] \<and>
   ''https://other.example/y'' \<in>
     visited (state_after (a_crawler 10 2 0 True) ''https://example.com/two'' two_links_schedule) \<and>
   (\<exists>seed. urlparse web (normalize_start_url ''https://example.com/two'') = Inr seed \<and>
      (\<forall>r \<in> set (results (state_after (a_crawler 10 2 0 True) ''https://example.com/two''
                             two_links_schedule)).
          \<exists>parsed. urlparse web (cr_url r) = Inr parsed \<and> netloc parsed = netloc seed) \<and>
      (\<forall>u \<in> set (fetched (state_after (a_crawler 10 2 0 True) ''https://example.com/two''
                             two_links_schedule)).
          \<exists>parsed. urlparse web u = Inr parsed \<and> netloc parsed = netloc seed) \<and>
      (main_pc (state_after (a_crawler 10 2 0 True) ''https://example.com/two''
                  two_links_schedule) = M_return \<longrightarrow>
         crawl (a_crawler 10 2 0 True) web 1000 no_files ''https://example.com/two''
           two_links_schedule =
           Some (Inr (results (state_after (a_crawler 10 2 0 True) ''https://example.com/two''
                                 two_links_schedule)))))"
proof -
  have h1: "same_domain (a_crawler 10 2 0 True)" by code_simp
  have h2: "crawl_start (a_crawler 10 2 0 True) web 1000 no_files ''https://example.com/two'' =
     Inr (start_of (a_crawler 10 2 0 True) ''https://example.com/two'')"
    by (rule start_ofI) code_simp
  have h3: "run (a_crawler 10 2 0 True) web
      (start_of (a_crawler 10 2 0 True) ''https://example.com/two'') two_links_schedule =
     Some (state_after (a_crawler 10 2 0 True) ''https://example.com/two'' two_links_schedule)"
    by (rule state_afterI) code_simp
  have v1: "map cr_url (results (state_after (a_crawler 10 2 0 True) ''https://example.com/two''
                          two_links_schedule)) =
     [''https://example.com/two'', ''https://example.com/a'']" by code_simp
  have v2: "''https://other.example/y'' \<in>
     visited (state_after (a_crawler 10 2 0 True) ''https://example.com/two'' two_links_schedule)"
    by code_simp
  note c = crawl_same_domain[OF h1 h2 h3]
  show ?thesis by (rule conjI[OF h1 conjI[OF h2 conjI[OF h3 conjI[OF v1 conjI[OF v2 c]]]]])
qed

theorem crawl_normalizes_start_url_witness:
  "crawl_start (a_crawler 10 2 0 True) web 1000 no_files ''  example.com  '' =
     Inr (start_of (a_crawler 10 2 0 True) ''  example.com  '') \<and>
   queue (start_of (a_crawler 10 2 0 True) ''  example.com  '') = [(''https://example.com'', 0)] \<and>
   (\<exists>l r stripped seed.
      ''  example.com  '' = l @ stripped @ r \<and>
      (\<forall>ch \<in> set l. py_isspace ch) \<and> (\<forall>ch \<in> set r. py_isspace ch) \<and>
      (stripped = [] \<or> (\<not> py_isspace (hd stripped) \<and> \<not> py_isspace (last stripped))) \<and>
      seed = (if startswith stripped ''http://'' \<or> startswith stripped ''https://''
              then stripped else ''https://'' @ stripped) \<and>
      queue (start_of (a_crawler 10 2 0 True) ''  example.com  '') = [(seed, 0)] \<and>
      (\<exists>parsed. urlparse web seed = Inr parsed \<and>
         start_host (start_of (a_crawler 10 2 0 True) ''  example.com  '') = netloc parsed) \<and>
      (\<forall>sched s i.
         run (a_crawler 10 2 0 True) web (start_of (a_crawler 10 2 0 True) ''  example.com  '')
           sched = Some s \<and>
         i < length (futures s) \<and> w_depth (futures s ! i) = 0 \<longrightarrow>
         w_url (futures s ! i) = seed \<and>
         (\<forall>s'. step (a_crawler 10 2 0 True) web s (Run i) = Some s' \<longrightarrow>
              results s' = results s \<or>
              (\<exists>res. results s' = results s @ [res] \<and> cr_url res = seed))))"
proof -
  have h: "crawl_start (a_crawler 10 2 0 True) web 1000 no_files ''  example.com  '' =
     Inr (start_of (a_crawler 10 2 0 True) ''  example.com  '')"
    by (rule start_ofI) code_simp
  have v: "queue (start_of (a_crawler 10 2 0 True) ''  example.com  '') =
     [(''https://example.com'', 0)]" by code_simp
  note c = crawl_normalizes_start_url[OF h]
  show ?thesis by (rule conjI[OF h conjI[OF v c]])
qed



end
